theory Spec2Isabelle
  imports Main
begin

section \<open>Remote syscall dispatch (angr/engines/remote\_syscall.py)\<close>

subsection \<open>Bypass policy\<close>

definition BASE_SYSCALL_BYPASS_LIST :: "string set" where
  "BASE_SYSCALL_BYPASS_LIST =
     {''mmap'', ''munmap'', ''brk'', ''write'', ''read'', ''exit'', ''exit_group''}"

definition SYSCALL_BYPASS_LISTS :: "string \<rightharpoonup> string set" where
  "SYSCALL_BYPASS_LISTS =
     [''amd64'' \<mapsto> BASE_SYSCALL_BYPASS_LIST,
      ''i386'' \<mapsto> BASE_SYSCALL_BYPASS_LIST,
      ''mips-n32'' \<mapsto> BASE_SYSCALL_BYPASS_LIST \<union> {''set_thread_area''},
      ''mips-o32'' \<mapsto> BASE_SYSCALL_BYPASS_LIST \<union> {''set_thread_area''},
      ''mips-n64'' \<mapsto> BASE_SYSCALL_BYPASS_LIST \<union> {''set_thread_area''}]"

text \<open>Python's \<^verbatim>\<open>d.get(k, default)\<close>.\<close>

definition dict_get :: "('k \<rightharpoonup> 'v) \<Rightarrow> 'k \<Rightarrow> 'v \<Rightarrow> 'v" where
  "dict_get d k dflt = (case d k of None \<Rightarrow> dflt | Some v \<Rightarrow> v)"

text \<open>
  Line 91 of the dispatcher:
  \<^verbatim>\<open>syscall_blacklist = SYSCALL_BYPASS_LISTS.get(syscall_abi, BASE_SYSCALL_BYPASS_LIST)\<close>.
\<close>

definition syscall_blacklist :: "string \<Rightarrow> string set" where
  "syscall_blacklist syscall_abi =
     dict_get SYSCALL_BYPASS_LISTS syscall_abi BASE_SYSCALL_BYPASS_LIST"

subsection \<open>Errors\<close>

text \<open>
  The five messages with which the dispatcher raises \<^verbatim>\<open>AngrUnsupportedSyscallError\<close>, in
  source order, with the values the format string receives. The others are the
  \<^verbatim>\<open>AngrSyscallError\<close> of \<^verbatim>\<open>_syscall_abi\<close> (syscall number, architecture name), the
  \<^verbatim>\<open>NotImplementedError\<close> placeholder, a \<^verbatim>\<open>SimSolverError\<close> of an \<^verbatim>\<open>eval_one\<close>
  that no handler encloses, and an error with which the bureau answers a call (no handler
  encloses \<^verbatim>\<open>invoke_syscall\<close> either).
\<close>

datatype unsupported_syscall_msg =
    Not_configured_to_support_syscalls
  | State_not_satisfiable
  | Symbolic_syscall_number
  | Not_found_in_syscall_mapping int string
  | Not_found_in_syscall_prototypes int string string

datatype error =
    AngrUnsupportedSyscallError unsupported_syscall_msg
  | AngrSyscallError int string
  | NotImplementedError string
  | SimSolverError
  | BureauError string

subsection \<open>Execution state and collaborators\<close>

text \<open>
  The state's history: the dispatcher reads \<^verbatim>\<open>history.parent.jumpkind\<close> and writes
  \<^verbatim>\<open>history.recent_block_count\<close>.
\<close>

datatype history =
  SimStateHistory (parent: "history option") (jumpkind: "string option")
    (recent_block_count: int)

definition set_recent_block_count :: "int \<Rightarrow> history \<Rightarrow> history" where
  "set_recent_block_count n h = SimStateHistory (parent h) (jumpkind h) n"

text \<open>
  The part of \<^verbatim>\<open>SimState\<close> the dispatcher touches. Expressions are of an arbitrary type
  \<open>'e\<close>. The solver is a collaborator and is taken as three fields:
  \<open>eval_one\<close> gives the unique concrete value of an expression, \<open>None\<close> standing for
  the \<^verbatim>\<open>SimSolverError\<close> it raises otherwise; \<open>symbolic\<close> and \<open>satisfiable\<close> are the
  queries of the same name.
\<close>

record 'e sim_state =
  history :: "history option"
  options :: "string set"
  arch_name :: string
  eval_one :: "'e \<Rightarrow> int option"
  symbolic :: "'e \<Rightarrow> bool"
  satisfiable :: bool
  scratch_sim_procedure :: "string option"

definition BYPASS_UNSUPPORTED_SYSCALL :: string where
  "BYPASS_UNSUPPORTED_SYSCALL = ''BYPASS_UNSUPPORTED_SYSCALL''"

text \<open>The syscall calling convention: number, arguments by index, return address.\<close>

record 'e syscall_cc =
  syscall_num :: "'e sim_state \<Rightarrow> 'e"
  arg :: "'e sim_state \<Rightarrow> nat \<Rightarrow> 'e"
  return_addr_get_value :: "'e sim_state \<Rightarrow> 'e"

text \<open>A syscall prototype; only the list of argument types is read.\<close>

record sim_prototype =
  args :: "string list"

text \<open>
  The project: the OS model (\<^verbatim>\<open>simos\<close>), the syscall library
  \<^verbatim>\<open>angr.SIM_LIBRARIES['linux']\<close> and the bureau. \<open>simos_syscall_abis\<close> is the dictionary
  \<^verbatim>\<open>{abi: (table, min_num, max_num)}\<close> as the list of its items in iteration order.
  \<open>syscall_number_mapping\<close> gives the number-to-name dictionary of every ABI (the
  library keeps a default dictionary, so an ABI it does not know has the empty one), and
  \<open>get_prototype\<close> takes the ABI, the name and the architecture. The bureau answers a
  call with the successor state (\<open>Inr\<close>) or with an error (\<open>Inl\<close>), which leaves
  \<^verbatim>\<open>invoke_syscall\<close> as an exception.
\<close>

record 'e project =
  simos_syscall_cc :: "'e sim_state \<Rightarrow> 'e syscall_cc"
  simos_syscall_abi :: "'e sim_state \<Rightarrow> string option"
  simos_syscall_abis :: "(string \<times> (string \<times> int \<times> int)) list"
  syscall_number_mapping :: "string \<Rightarrow> int \<rightharpoonup> string"
  get_prototype :: "string \<Rightarrow> string \<Rightarrow> string \<Rightarrow> sim_prototype option"
  bureau_invoke_syscall ::
    "'e sim_state \<Rightarrow> int \<Rightarrow> int list \<Rightarrow> 'e syscall_cc \<Rightarrow> error + 'e sim_state"

subsection \<open>ABI resolution\<close>

text \<open>
  \<^verbatim>\<open>_syscall_abi\<close>: the hint of the OS model, else the single declared ABI, else the first
  item whose range holds the number, else \<^verbatim>\<open>AngrSyscallError\<close>.
\<close>

fun scan_abis :: "(string \<times> (string \<times> int \<times> int)) list \<Rightarrow> int \<Rightarrow> string option" where
  "scan_abis [] num = None"
| "scan_abis ((abi, (_, min_syscall_num, max_syscall_num)) # rest) num =
     (if min_syscall_num \<le> num \<and> num < max_syscall_num then Some abi
      else scan_abis rest num)"

definition syscall_abi :: "'e project \<Rightarrow> 'e sim_state \<Rightarrow> int \<Rightarrow> error + string" where
  "syscall_abi proj st num =
     (case simos_syscall_abi proj st of
        Some a \<Rightarrow> Inr a
      | None \<Rightarrow>
          if length (simos_syscall_abis proj) = 1
          then Inr (fst (hd (simos_syscall_abis proj)))
          else (case scan_abis (simos_syscall_abis proj) num of
                  Some abi \<Rightarrow> Inr abi
                | None \<Rightarrow> Inl (AngrSyscallError num (arch_name st))))"

subsection \<open>Successors, instrumentation and the dispatcher's world\<close>

datatype artifact = Bool_artifact bool | Str_artifact string

datatype 'e guard = claripy_true | guard_expr 'e

record 'e successor =
  succ_state :: "'e sim_state"
  succ_target :: 'e
  succ_guard :: "'e guard"
  succ_jumpkind :: string

record 'e sim_successors =
  sort' :: "string option"
  artifacts :: "string \<rightharpoonup> artifact"
  description :: "string option"
  processed :: bool
  all_successors :: "'e successor list"

text \<open>
  Modelled from the spec: \<^verbatim>\<open>SimSuccessors.add_successor\<close> is not among the sources. The
  successor sink receives the successor record (destination state, target address, guard,
  jump kind); the model appends it to the successors the object holds.
\<close>

definition add_successor ::
    "'e sim_successors \<Rightarrow> 'e sim_state \<Rightarrow> 'e \<Rightarrow> 'e guard \<Rightarrow> string \<Rightarrow> 'e sim_successors" where
  "add_successor successors st target g jk =
     successors\<lparr>all_successors := all_successors successors @
       [\<lparr>succ_state = st, succ_target = target, succ_guard = g, succ_jumpkind = jk\<rparr>]\<rparr>"

datatype bp_when = BP_BEFORE | BP_AFTER

text \<open>
  The calls the dispatcher makes to its collaborators, in the order it makes them:
  \<^verbatim>\<open>state._inspect(event, when, syscall_name=...)\<close>, \<^verbatim>\<open>bureau.invoke_syscall\<close> with the
  state as it is at the call, and \<^verbatim>\<open>successors.add_successor\<close>. The world of a dispatch
  is the state, the successors object and the calls made so far.
\<close>

datatype 'e event =
    Inspect string bp_when string
  | Invoke_syscall "'e sim_state" int "int list" "'e syscall_cc"
  | Add_successor "'e successor"

record 'e world =
  state :: "'e sim_state"
  successors :: "'e sim_successors"
  trace :: "'e event list"

text \<open>
  Modelled from the spec: \<^verbatim>\<open>SimState._inspect\<close> is not among the sources. The
  instrumentation hook accepts an event name and named attributes; the model records
  the call.
\<close>

definition inspect :: "'e world \<Rightarrow> string \<Rightarrow> bp_when \<Rightarrow> string \<Rightarrow> 'e world" where
  "inspect w ev when syscall_name = w\<lparr>trace := trace w @ [Inspect ev when syscall_name]\<rparr>"

fun is_invoke :: "'e event \<Rightarrow> bool" where
  "is_invoke (Invoke_syscall _ _ _ _) = True"
| "is_invoke _ = False"

definition remote_invocations :: "'e event list \<Rightarrow> nat" where
  "remote_invocations tr = length (filter is_invoke tr)"

subsection \<open>The dispatcher\<close>

text \<open>Python's \<^verbatim>\<open>str.startswith\<close> and \<^verbatim>\<open>str.lower\<close> (on ASCII letters).\<close>

fun startswith :: "string \<Rightarrow> string \<Rightarrow> bool" where
  "startswith s [] = True"
| "startswith [] (p # ps) = False"
| "startswith (c # cs) (p # ps) = (c = p \<and> startswith cs ps)"

definition lower :: "string \<Rightarrow> string" where
  "lower s = map (\<lambda>c. if 65 \<le> (of_char c :: nat) \<and> (of_char c :: nat) \<le> 90
                       then char_of (of_char c + 32 :: nat) else c) s"

text \<open>
  The guard of lines 54 to 57, negated: the state has a history, the history a parent,
  the parent a non-empty jump kind that starts with \<^verbatim>\<open>Ijk_Sys\<close>.
\<close>

definition after_syscall_jump :: "'e sim_state \<Rightarrow> bool" where
  "after_syscall_jump st =
     (case history st of
        None \<Rightarrow> False
      | Some h \<Rightarrow>
          (case parent h of
             None \<Rightarrow> False
           | Some p \<Rightarrow>
               (case jumpkind p of
                  None \<Rightarrow> False
                | Some jk \<Rightarrow> jk \<noteq> [] \<and> startswith jk ''Ijk_Sys'')))"

text \<open>
  How a stretch of the dispatcher ends: it returns what the next mixin returns
  (\<^verbatim>\<open>return super().process_successors(...)\<close>), it raises, or it goes on with a value.
\<close>

datatype 'a flow = Return_super | Raise error | Continue 'a

text \<open>The loop of lines 104 to 112 over \<^verbatim>\<open>enumerate(syscall_proto.args)\<close>.\<close>

fun extract_args ::
    "'e sim_state \<Rightarrow> 'e syscall_cc \<Rightarrow> (nat \<times> string) list \<Rightarrow> int list \<Rightarrow> int list flow" where
  "extract_args st cc [] acc = Continue acc"
| "extract_args st cc ((arg_idx, arg_type) # rest) acc =
     (let a = arg cc st arg_idx in
      if \<not> symbolic st a then
        (case eval_one st a of
           None \<Rightarrow> Raise SimSolverError
         | Some v \<Rightarrow> extract_args st cc rest (acc @ [v]))
      else Return_super)"

text \<open>
  The outcome of one dispatch: \<open>LOCAL\<close> when the call is handed to the next mixin
  (with the world as it is handed over), \<open>FATAL\<close> when an exception leaves the
  dispatcher (with the world as it is then), \<open>DONE\<close> when it runs to its end.
\<close>

datatype outcome = LOCAL | FATAL error | DONE

text \<open>Lines 123 to 125 (\<^verbatim>\<open># Update state.scratch\<close>).\<close>

definition update_scratch :: "'e sim_state \<Rightarrow> 'e sim_state" where
  "update_scratch st =
     st\<lparr>scratch_sim_procedure := None,
        history := map_option (set_recent_block_count 1) (history st)\<rparr>"

text \<open>
  Lines 114 to 142: everything after the arguments have been extracted. When the bureau
  answers with an error, the exception leaves the dispatcher at line 131, with what lines
  115 to 128 have done.
\<close>

definition commit ::
    "'e project \<Rightarrow> 'e world \<Rightarrow> 'e syscall_cc \<Rightarrow> int \<Rightarrow> string \<Rightarrow> int list
       \<Rightarrow> outcome \<times> 'e world" where
  "commit proj w cc num syscall_name as =
     (let w1 = w\<lparr>successors := (successors w)\<lparr>sort' := Some ''SimProcedure''\<rparr>\<rparr>;
          w2 = w1\<lparr>successors := (successors w1)\<lparr>artifacts :=
                 (artifacts (successors w1))
                   (''is_syscall'' \<mapsto> Bool_artifact True,
                    ''name'' \<mapsto> Str_artifact syscall_name,
                    ''no_ret'' \<mapsto> Bool_artifact False,
                    ''adds_exits'' \<mapsto> Bool_artifact True)\<rparr>\<rparr>;
          w3 = w2\<lparr>state := update_scratch (state w2)\<rparr>;
          w4 = inspect w3 ''syscall'' BP_BEFORE syscall_name;
          w5 = w4\<lparr>trace := trace w4 @ [Invoke_syscall (state w4) num as cc]\<rparr>
      in case bureau_invoke_syscall proj (state w4) num as cc of
           Inl e \<Rightarrow> (FATAL e, w5)
         | Inr succ_st \<Rightarrow>
             (let succ = \<lparr>succ_state = succ_st,
                          succ_target = return_addr_get_value cc (state w5),
                          succ_guard = claripy_true, succ_jumpkind = ''Ijk_Ret''\<rparr>;
                  w6 = w5\<lparr>successors := add_successor (successors w5) (succ_state succ)
                           (succ_target succ) (succ_guard succ) (succ_jumpkind succ),
                         trace := trace w5 @ [Add_successor succ]\<rparr>;
                  w7 = inspect w6 ''syscall'' BP_AFTER syscall_name;
                  w8 = w7\<lparr>successors := (successors w7)
                         \<lparr>description := Some (''SimProcedure '' @ syscall_name)\<rparr>\<rparr>;
                  w9 = w8\<lparr>successors := (successors w8)
                         \<lparr>description := map_option (\<lambda>d. d @ '' (syscall)'')
                                           (description (successors w8))\<rparr>\<rparr>
              in (DONE, w9\<lparr>successors := (successors w9)\<lparr>processed := True\<rparr>\<rparr>)))"

text \<open>\<^verbatim>\<open>SimEngineRemoteSyscall.process_successors\<close>, lines 52 to 142.\<close>

definition process_successors :: "'e project \<Rightarrow> 'e world \<Rightarrow> outcome \<times> 'e world" where
  "process_successors proj w =
     (let st = state w in
      if \<not> after_syscall_jump st then (LOCAL, w)
      else
        let cc = simos_syscall_cc proj st in
        case eval_one st (syscall_num cc st) of
          None \<Rightarrow>
            if BYPASS_UNSUPPORTED_SYSCALL \<notin> options st
            then (FATAL (AngrUnsupportedSyscallError Not_configured_to_support_syscalls), w)
            else if \<not> satisfiable st
            then (FATAL (AngrUnsupportedSyscallError State_not_satisfiable), w)
            else (FATAL (AngrUnsupportedSyscallError Symbolic_syscall_number), w)
        | Some num \<Rightarrow>
            (case syscall_abi proj st num of
               Inl e \<Rightarrow> (FATAL e, w)
             | Inr abi \<Rightarrow>
                 let syscall_name = syscall_number_mapping proj abi num in
                 if syscall_name = None \<or> syscall_name = Some []
                 then
                   if BYPASS_UNSUPPORTED_SYSCALL \<notin> options st
                   then (FATAL (AngrUnsupportedSyscallError
                           (Not_found_in_syscall_mapping num (lower (arch_name st)))), w)
                   else (FATAL (NotImplementedError ''what to do...''), w)
                 else
                   let name = the syscall_name in
                   if name \<in> syscall_blacklist abi then (LOCAL, w)
                   else
                     (case get_prototype proj abi name (arch_name st) of
                        None \<Rightarrow>
                          if BYPASS_UNSUPPORTED_SYSCALL \<notin> options st
                          then (FATAL (AngrUnsupportedSyscallError
                                  (Not_found_in_syscall_prototypes num name
                                     (lower (arch_name st)))), w)
                          else (FATAL (NotImplementedError ''what to do...''), w)
                      | Some syscall_proto \<Rightarrow>
                          (case extract_args st cc (enumerate 0 (args syscall_proto)) [] of
                             Return_super \<Rightarrow> (LOCAL, w)
                           | Raise e \<Rightarrow> (FATAL e, w)
                           | Continue as \<Rightarrow> commit proj w cc num name as))))"

subsection \<open>A concrete configuration\<close>

text \<open>
  A small instance on which the theorems below are exercised: expressions are either a
  constant or a named unknown, the state stands just after a syscall trap, the OS model
  answers with the ABI hint it is given, and the library knows three amd64 syscalls and
  the prototype of \<^verbatim>\<open>open\<close>.
\<close>

datatype ex_expr = BVV int | BVS string

definition ex_state :: "string set \<Rightarrow> ex_expr sim_state" where
  "ex_state opts =
     \<lparr>history = Some (SimStateHistory
                   (Some (SimStateHistory None (Some ''Ijk_Sys_syscall'') 1)) None 7),
      options = opts,
      arch_name = ''AMD64'',
      eval_one = (\<lambda>e. case e of BVV v \<Rightarrow> Some v | BVS _ \<Rightarrow> None),
      symbolic = (\<lambda>e. case e of BVV _ \<Rightarrow> False | BVS _ \<Rightarrow> True),
      satisfiable = True,
      scratch_sim_procedure = Some ''receive''\<rparr>"

definition ex_cc :: "ex_expr \<Rightarrow> ex_expr list \<Rightarrow> ex_expr syscall_cc" where
  "ex_cc n as =
     \<lparr>syscall_num = (\<lambda>_. n),
      arg = (\<lambda>_ i. if i < length as then as ! i else BVV 0),
      return_addr_get_value = (\<lambda>_. BVV 4198400)\<rparr>"

definition ex_project ::
    "string option \<Rightarrow> (string \<times> (string \<times> int \<times> int)) list \<Rightarrow> ex_expr \<Rightarrow> ex_expr list
       \<Rightarrow> ex_expr project" where
  "ex_project hint abis n as =
     \<lparr>simos_syscall_cc = (\<lambda>_. ex_cc n as),
      simos_syscall_abi = (\<lambda>_. hint),
      simos_syscall_abis = abis,
      syscall_number_mapping =
        (\<lambda>abi. if abi = ''amd64'' then [0 \<mapsto> ''read'', 1 \<mapsto> ''write'', 2 \<mapsto> ''open'']
                else Map.empty),
      get_prototype =
        (\<lambda>abi name arch. if abi = ''amd64'' \<and> name = ''open''
                          then Some \<lparr>args = [''char*'', ''int'', ''int'']\<rparr> else None),
      bureau_invoke_syscall =
        (\<lambda>st num as cc. Inr (st\<lparr>scratch_sim_procedure := Some ''returned''\<rparr>))\<rparr>"

definition ex_amd64 :: "ex_expr \<Rightarrow> ex_expr list \<Rightarrow> ex_expr project" where
  "ex_amd64 n as = ex_project (Some ''amd64'') [(''amd64'', (''amd64'', 0, 1000))] n as"

text \<open>The same project with a bureau that answers every call with an error.\<close>

definition ex_failing_bureau :: "ex_expr \<Rightarrow> ex_expr list \<Rightarrow> ex_expr project" where
  "ex_failing_bureau n as =
     (ex_amd64 n as)\<lparr>bureau_invoke_syscall :=
        (\<lambda>st num as cc. Inl (BureauError ''no answer''))\<rparr>"

text \<open>
  A state whose constraints leave every unknown the single value 5: the solver still
  calls the unknown symbolic, and \<open>eval_one\<close> gives its value.
\<close>

definition ex_state_pinned :: "ex_expr sim_state" where
  "ex_state_pinned =
     (ex_state {})\<lparr>eval_one := (\<lambda>e. case e of BVV v \<Rightarrow> Some v | BVS _ \<Rightarrow> Some 5)\<rparr>"

definition ex_two_abis :: "(string \<times> (string \<times> int \<times> int)) list" where
  "ex_two_abis = [(''first'', (''t1'', 0, 300)), (''second'', (''t2'', 300, 600))]"

definition ex_world :: "string set \<Rightarrow> ex_expr world" where
  "ex_world opts =
     \<lparr>state = ex_state opts,
      successors = \<lparr>sort' = None, artifacts = Map.empty, description = None,
                    processed = False, all_successors = []\<rparr>,
      trace = []\<rparr>"

section \<open>Properties\<close>

subsection \<open>Bypass policy\<close>

lemma BASE_members:
  "x \<in> BASE_SYSCALL_BYPASS_LIST \<longleftrightarrow>
     x = ''mmap'' \<or> x = ''munmap'' \<or> x = ''brk'' \<or> x = ''write'' \<or> x = ''read''
       \<or> x = ''exit'' \<or> x = ''exit_group''"
  by (simp add: BASE_SYSCALL_BYPASS_LIST_def)

lemma BASE_subset_blacklist: "BASE_SYSCALL_BYPASS_LIST \<subseteq> syscall_blacklist abi"
  by (auto simp: syscall_blacklist_def dict_get_def SYSCALL_BYPASS_LISTS_def)

lemma blacklist_amd64: "syscall_blacklist ''amd64'' = BASE_SYSCALL_BYPASS_LIST"
  by (simp add: syscall_blacklist_def dict_get_def SYSCALL_BYPASS_LISTS_def)

text \<open>
  C10. An ABI identifier that has no entry of its own in \<^verbatim>\<open>SYSCALL_BYPASS_LISTS\<close> gets
  the base bypass set, which holds exactly the seven names mmap, munmap, brk, write, read,
  exit and exit\_group; and the bypass set the dispatcher uses for any ABI whatsoever
  includes the base set.
\<close>

theorem unlisted_abi_uses_base_bypass_set:
  "(SYSCALL_BYPASS_LISTS abi = None \<longrightarrow> syscall_blacklist abi = BASE_SYSCALL_BYPASS_LIST)
   \<and> BASE_SYSCALL_BYPASS_LIST =
       {''mmap'', ''munmap'', ''brk'', ''write'', ''read'', ''exit'', ''exit_group''}
   \<and> BASE_SYSCALL_BYPASS_LIST \<subseteq> syscall_blacklist abi'"
proof (intro conjI impI)
  assume "SYSCALL_BYPASS_LISTS abi = None"
  then show "syscall_blacklist abi = BASE_SYSCALL_BYPASS_LIST"
    by (simp add: syscall_blacklist_def dict_get_def)
next
  show "BASE_SYSCALL_BYPASS_LIST =
          {''mmap'', ''munmap'', ''brk'', ''write'', ''read'', ''exit'', ''exit_group''}"
    by (simp add: BASE_SYSCALL_BYPASS_LIST_def)
next
  show "BASE_SYSCALL_BYPASS_LIST \<subseteq> syscall_blacklist abi'"
    by (rule BASE_subset_blacklist)
qed

theorem unlisted_abi_uses_base_bypass_set_witness:
  "SYSCALL_BYPASS_LISTS ''armel'' = None
   \<and> syscall_blacklist ''armel'' = BASE_SYSCALL_BYPASS_LIST
   \<and> BASE_SYSCALL_BYPASS_LIST \<subseteq> syscall_blacklist ''mips-o32''"
proof -
  have h: "SYSCALL_BYPASS_LISTS ''armel'' = None"
    by (simp add: SYSCALL_BYPASS_LISTS_def)
  from unlisted_abi_uses_base_bypass_set [of "''armel''" "''mips-o32''"] h
  show ?thesis by simp
qed

subsection \<open>ABI resolution\<close>

lemma scan_abis_first:
  "i < length abis \<Longrightarrow> abis ! i = (a, (t, lo, hi)) \<Longrightarrow> lo \<le> num \<Longrightarrow> num < hi \<Longrightarrow>
   (\<And>j. j < i \<Longrightarrow> \<not> (fst (snd (snd (abis ! j))) \<le> num \<and> num < snd (snd (snd (abis ! j))))) \<Longrightarrow>
   scan_abis abis num = Some a"
proof (induction abis num arbitrary: i rule: scan_abis.induct)
  case (1 num)
  then show ?case by simp
next
  case (2 abi t' lo' hi' rest num)
  show ?case
  proof (cases i)
    case 0
    with "2.prems" show ?thesis by simp
  next
    case (Suc k)
    from "2.prems"(5) [of 0] Suc have miss: "\<not> (lo' \<le> num \<and> num < hi')" by simp
    have "scan_abis rest num = Some a"
    proof (rule "2.IH" [OF miss, of k])
      show "k < length rest" using "2.prems"(1) Suc by simp
      show "rest ! k = (a, (t, lo, hi))" using "2.prems"(2) Suc by simp
      show "lo \<le> num" "num < hi" using "2.prems" by simp_all
      fix j assume "j < k"
      then show "\<not> (fst (snd (snd (rest ! j))) \<le> num \<and> num < snd (snd (snd (rest ! j))))"
        using "2.prems"(5) [of "Suc j"] Suc by simp
    qed
    with miss show ?thesis by auto
  qed
qed

lemma scan_abis_none:
  "(\<And>x. x \<in> set abis \<Longrightarrow> \<not> (fst (snd (snd x)) \<le> num \<and> num < snd (snd (snd x)))) \<Longrightarrow>
   scan_abis abis num = None"
proof (induction abis num rule: scan_abis.induct)
  case (1 num)
  show ?case by simp
next
  case (2 abi t lo hi rest num)
  from "2.prems" [of "(abi, (t, lo, hi))"]
  have miss: "\<not> (lo \<le> num \<and> num < hi)" by simp
  have "scan_abis rest num = None"
    by (rule "2.IH" [OF miss]) (rule "2.prems", simp)
  with miss show ?case by auto
qed

text \<open>
  C4. \<^verbatim>\<open>_syscall_abi\<close> takes the first of these that applies: the ABI hint of the OS
  model when there is one; else, when the OS model declares exactly one ABI, that ABI,
  for every syscall number and whatever its declared range; else the first declared ABI
  whose half-open range \<open>[min_num, max_num)\<close> holds the number; and when no declared
  range holds it, the fatal \<^verbatim>\<open>AngrSyscallError\<close> for that number (the spec's
  \<open>UnresolvedAbi\<close>). With the ranges \<open>[0,300)\<close> and \<open>[300,600)\<close>, the numbers 0 and 299
  give the first ABI, 300 and 599 the second, and 600 the error.
\<close>

theorem syscall_abi_first_match_wins:
  "(simos_syscall_abi proj st = Some a \<longrightarrow> syscall_abi proj st num = Inr a)
   \<and> (simos_syscall_abi proj st = None \<and> simos_syscall_abis proj = [(a, r)]
        \<longrightarrow> syscall_abi proj st num = Inr a)
   \<and> (simos_syscall_abi proj st = None \<and> length (simos_syscall_abis proj) \<noteq> 1
        \<and> i < length (simos_syscall_abis proj)
        \<and> simos_syscall_abis proj ! i = (a, (t, lo, hi)) \<and> lo \<le> num \<and> num < hi
        \<and> (\<forall>j<i. \<not> (fst (snd (snd (simos_syscall_abis proj ! j))) \<le> num
                      \<and> num < snd (snd (snd (simos_syscall_abis proj ! j)))))
        \<longrightarrow> syscall_abi proj st num = Inr a)
   \<and> (simos_syscall_abi proj st = None \<and> length (simos_syscall_abis proj) \<noteq> 1
        \<and> (\<forall>x \<in> set (simos_syscall_abis proj).
               \<not> (fst (snd (snd x)) \<le> num \<and> num < snd (snd (snd x))))
        \<longrightarrow> syscall_abi proj st num = Inl (AngrSyscallError num (arch_name st)))
   \<and> (simos_syscall_abi proj st = None
        \<and> simos_syscall_abis proj = [(a1, (t1, 0, 300)), (a2, (t2, 300, 600))]
        \<longrightarrow> syscall_abi proj st 0 = Inr a1 \<and> syscall_abi proj st 299 = Inr a1
          \<and> syscall_abi proj st 300 = Inr a2 \<and> syscall_abi proj st 599 = Inr a2
          \<and> syscall_abi proj st 600 = Inl (AngrSyscallError 600 (arch_name st)))"
proof (intro conjI impI)
  assume "simos_syscall_abi proj st = Some a"
  then show "syscall_abi proj st num = Inr a"
    by (simp add: syscall_abi_def)
next
  assume "simos_syscall_abi proj st = None \<and> simos_syscall_abis proj = [(a, r)]"
  then show "syscall_abi proj st num = Inr a"
    by (simp add: syscall_abi_def)
next
  assume h: "simos_syscall_abi proj st = None \<and> length (simos_syscall_abis proj) \<noteq> 1
        \<and> i < length (simos_syscall_abis proj)
        \<and> simos_syscall_abis proj ! i = (a, (t, lo, hi)) \<and> lo \<le> num \<and> num < hi
        \<and> (\<forall>j<i. \<not> (fst (snd (snd (simos_syscall_abis proj ! j))) \<le> num
                      \<and> num < snd (snd (snd (simos_syscall_abis proj ! j)))))"
  then have "scan_abis (simos_syscall_abis proj) num = Some a"
    by (intro scan_abis_first [of i _ a t lo hi]) simp_all
  with h show "syscall_abi proj st num = Inr a"
    by (simp add: syscall_abi_def)
next
  assume h: "simos_syscall_abi proj st = None \<and> length (simos_syscall_abis proj) \<noteq> 1
        \<and> (\<forall>x \<in> set (simos_syscall_abis proj).
               \<not> (fst (snd (snd x)) \<le> num \<and> num < snd (snd (snd x))))"
  then have "scan_abis (simos_syscall_abis proj) num = None"
    by (intro scan_abis_none) blast
  with h show "syscall_abi proj st num = Inl (AngrSyscallError num (arch_name st))"
    by (simp add: syscall_abi_def)
next
  assume h: "simos_syscall_abi proj st = None
        \<and> simos_syscall_abis proj = [(a1, (t1, 0, 300)), (a2, (t2, 300, 600))]"
  then show "syscall_abi proj st 0 = Inr a1" "syscall_abi proj st 299 = Inr a1"
    "syscall_abi proj st 300 = Inr a2" "syscall_abi proj st 599 = Inr a2"
    "syscall_abi proj st 600 = Inl (AngrSyscallError 600 (arch_name st))"
    by (simp_all add: syscall_abi_def)
qed

theorem syscall_abi_first_match_wins_witness:
  "syscall_abi (ex_project (Some ''amd64'') ex_two_abis (BVV 700) []) (ex_state {}) 700
     = Inr ''amd64''
   \<and> syscall_abi (ex_project None [(''amd64'', (''amd64'', 0, 1000))] (BVV 5000) [])
        (ex_state {}) 5000 = Inr ''amd64''
   \<and> syscall_abi (ex_project None ex_two_abis (BVV 450) []) (ex_state {}) 450
        = Inr ''second''
   \<and> syscall_abi (ex_project None ex_two_abis (BVV (- 1)) []) (ex_state {}) (- 1)
        = Inl (AngrSyscallError (- 1) ''AMD64'')
   \<and> syscall_abi (ex_project None ex_two_abis (BVV 299) []) (ex_state {}) 299 = Inr ''first''
   \<and> syscall_abi (ex_project None ex_two_abis (BVV 600) []) (ex_state {}) 600
        = Inl (AngrSyscallError 600 ''AMD64'')"
proof -
  note hint = syscall_abi_first_match_wins
    [of "ex_project (Some ''amd64'') ex_two_abis (BVV 700) []" "ex_state {}" "''amd64''" 700]
  note single = syscall_abi_first_match_wins
    [of "ex_project None [(''amd64'', (''amd64'', 0, 1000))] (BVV 5000) []" "ex_state {}"
        "''amd64''" 5000 "(''amd64'', 0, 1000)"]
  note range = syscall_abi_first_match_wins
    [of "ex_project None ex_two_abis (BVV 450) []" "ex_state {}" "''second''" 450 _ 1
        "''t2''" 300 600]
  note none = syscall_abi_first_match_wins
    [of "ex_project None ex_two_abis (BVV (- 1)) []" "ex_state {}" _ "- 1"]
  note table = syscall_abi_first_match_wins
    [of "ex_project None ex_two_abis (BVV 299) []" "ex_state {}" _ _ _ _ _ _ _
        "''first''" "''t1''" "''second''" "''t2''"]
  have "syscall_abi (ex_project (Some ''amd64'') ex_two_abis (BVV 700) []) (ex_state {}) 700
     = Inr ''amd64''"
    using hint by (simp add: ex_project_def)
  moreover have "syscall_abi (ex_project None [(''amd64'', (''amd64'', 0, 1000))] (BVV 5000) [])
        (ex_state {}) 5000 = Inr ''amd64''"
    using single by (simp add: ex_project_def)
  moreover have "syscall_abi (ex_project None ex_two_abis (BVV 450) []) (ex_state {}) 450
        = Inr ''second''"
    using range by (simp add: ex_project_def ex_two_abis_def less_Suc_eq)
  moreover have "syscall_abi (ex_project None ex_two_abis (BVV (- 1)) []) (ex_state {}) (- 1)
        = Inl (AngrSyscallError (- 1) ''AMD64'')"
    using none by (simp add: ex_project_def ex_two_abis_def ex_state_def)
  moreover have "syscall_abi (ex_project None ex_two_abis (BVV 299) []) (ex_state {}) 299
        = Inr ''first''
      \<and> syscall_abi (ex_project None ex_two_abis (BVV 600) []) (ex_state {}) 600
        = Inl (AngrSyscallError 600 ''AMD64'')"
    using table by (simp add: ex_project_def ex_two_abis_def ex_state_def syscall_abi_def)
  ultimately show ?thesis by blast
qed

subsection \<open>The argument loop\<close>

lemma extract_args_Continue_iff:
  "(extract_args st cc xs acc = Continue as) \<longleftrightarrow>
     (\<forall>x \<in> set xs. \<not> symbolic st (arg cc st (fst x)) \<and> eval_one st (arg cc st (fst x)) \<noteq> None)
     \<and> as = acc @ map (\<lambda>x. the (eval_one st (arg cc st (fst x)))) xs"
proof (induction st cc xs acc rule: extract_args.induct)
  case (1 st cc acc)
  show ?case by auto
next
  case (2 st cc arg_idx arg_type rest acc)
  show ?case
  proof (cases "symbolic st (arg cc st arg_idx)")
    case True
    then show ?thesis by simp
  next
    case False
    show ?thesis
    proof (cases "eval_one st (arg cc st arg_idx)")
      case None
      with False show ?thesis by simp
    next
      case (Some v)
      with False "2.IH" [OF refl False Some] show ?thesis by simp
    qed
  qed
qed

lemma extract_args_first_symbolic:
  "k < length xs \<Longrightarrow> symbolic st (arg cc st (fst (xs ! k))) \<Longrightarrow>
   (\<And>j. j < k \<Longrightarrow> \<not> symbolic st (arg cc st (fst (xs ! j))) \<Longrightarrow>
             eval_one st (arg cc st (fst (xs ! j))) \<noteq> None) \<Longrightarrow>
   extract_args st cc xs acc = Return_super"
proof (induction st cc xs acc arbitrary: k rule: extract_args.induct)
  case (1 st cc acc)
  then show ?case by simp
next
  case (2 st cc arg_idx arg_type rest acc)
  show ?case
  proof (cases "symbolic st (arg cc st arg_idx)")
    case True
    then show ?thesis by simp
  next
    case False
    then obtain k' where k: "k = Suc k'"
      using "2.prems"(2) by (cases k) auto
    from "2.prems"(3) [of 0] False k obtain v where v: "eval_one st (arg cc st arg_idx) = Some v"
      by auto
    have "extract_args st cc rest (acc @ [v]) = Return_super"
    proof (rule "2.IH" [OF refl False v, of k'])
      show "k' < length rest" using "2.prems"(1) k by simp
      show "symbolic st (arg cc st (fst (rest ! k')))" using "2.prems"(2) k by simp
      fix j assume "j < k'" "\<not> symbolic st (arg cc st (fst (rest ! j)))"
      then show "eval_one st (arg cc st (fst (rest ! j))) \<noteq> None"
        using "2.prems"(3) [of "Suc j"] k by simp
    qed
    with False v show ?thesis by simp
  qed
qed

lemma fst_enumerate_nth: "i < length xs \<Longrightarrow> fst (enumerate 0 xs ! i) = i"
  by (simp add: nth_enumerate_eq)

lemma set_enumerate_fst: "x \<in> set (enumerate 0 xs) \<Longrightarrow> fst x < length xs"
  by (auto simp: in_set_enumerate_eq)

subsection \<open>The paths through the dispatcher\<close>

lemma process_successors_no_jump:
  "\<not> after_syscall_jump (state w) \<Longrightarrow> process_successors proj w = (LOCAL, w)"
  by (simp add: process_successors_def)

lemma process_successors_resolved:
  assumes "after_syscall_jump (state w)"
    and "eval_one (state w) (syscall_num (simos_syscall_cc proj (state w)) (state w)) = Some num"
    and "syscall_abi proj (state w) num = Inr abi"
    and "syscall_number_mapping proj abi num = Some name"
    and "name \<noteq> []"
  shows "process_successors proj w =
     (if name \<in> syscall_blacklist abi then (LOCAL, w)
      else
        (case get_prototype proj abi name (arch_name (state w)) of
           None \<Rightarrow>
             if BYPASS_UNSUPPORTED_SYSCALL \<notin> options (state w)
             then (FATAL (AngrUnsupportedSyscallError
                     (Not_found_in_syscall_prototypes num name (lower (arch_name (state w))))), w)
             else (FATAL (NotImplementedError ''what to do...''), w)
         | Some syscall_proto \<Rightarrow>
             (case extract_args (state w) (simos_syscall_cc proj (state w))
                     (enumerate 0 (args syscall_proto)) [] of
                Return_super \<Rightarrow> (LOCAL, w)
              | Raise e \<Rightarrow> (FATAL e, w)
              | Continue as \<Rightarrow>
                  commit proj w (simos_syscall_cc proj (state w)) num name as)))"
  using assms by (simp add: process_successors_def Let_def)

lemma commit_fst:
  "fst (commit proj w cc num name as) =
     (case bureau_invoke_syscall proj (update_scratch (state w)) num as cc of
        Inl e \<Rightarrow> FATAL e | Inr succ_st \<Rightarrow> DONE)"
  by (simp add: commit_def Let_def inspect_def split: sum.splits)

lemma process_successors_cases:
  "process_successors proj w = (LOCAL, w)
   \<or> (\<exists>e. process_successors proj w = (FATAL e, w))
   \<or> (\<exists>num abi name syscall_proto as.
        after_syscall_jump (state w)
        \<and> eval_one (state w) (syscall_num (simos_syscall_cc proj (state w)) (state w))
            = Some num
        \<and> syscall_abi proj (state w) num = Inr abi
        \<and> syscall_number_mapping proj abi num = Some name \<and> name \<noteq> []
        \<and> name \<notin> syscall_blacklist abi
        \<and> get_prototype proj abi name (arch_name (state w)) = Some syscall_proto
        \<and> extract_args (state w) (simos_syscall_cc proj (state w))
             (enumerate 0 (args syscall_proto)) [] = Continue as
        \<and> process_successors proj w
            = commit proj w (simos_syscall_cc proj (state w)) num name as)"
  by (auto simp: process_successors_def Let_def
           split: if_splits option.splits sum.splits flow.splits)

lemma process_successors_DONE_D:
  assumes "process_successors proj w = (DONE, w')"
  shows "\<exists>num abi name syscall_proto as succ_st.
     after_syscall_jump (state w)
     \<and> eval_one (state w) (syscall_num (simos_syscall_cc proj (state w)) (state w)) = Some num
     \<and> syscall_abi proj (state w) num = Inr abi
     \<and> syscall_number_mapping proj abi num = Some name \<and> name \<noteq> []
     \<and> name \<notin> syscall_blacklist abi
     \<and> get_prototype proj abi name (arch_name (state w)) = Some syscall_proto
     \<and> extract_args (state w) (simos_syscall_cc proj (state w))
          (enumerate 0 (args syscall_proto)) [] = Continue as
     \<and> bureau_invoke_syscall proj (update_scratch (state w)) num as
          (simos_syscall_cc proj (state w)) = Inr succ_st
     \<and> w' = snd (commit proj w (simos_syscall_cc proj (state w)) num name as)"
proof -
  from process_successors_cases [of proj w] assms
  obtain num abi name syscall_proto as where
    res: "after_syscall_jump (state w)"
      "eval_one (state w) (syscall_num (simos_syscall_cc proj (state w)) (state w)) = Some num"
      "syscall_abi proj (state w) num = Inr abi"
      "syscall_number_mapping proj abi num = Some name" "name \<noteq> []"
      "name \<notin> syscall_blacklist abi"
      "get_prototype proj abi name (arch_name (state w)) = Some syscall_proto"
      "extract_args (state w) (simos_syscall_cc proj (state w))
          (enumerate 0 (args syscall_proto)) [] = Continue as"
    and run: "process_successors proj w
            = commit proj w (simos_syscall_cc proj (state w)) num name as"
    by auto
  from run assms
  have eq: "commit proj w (simos_syscall_cc proj (state w)) num name as = (DONE, w')"
    by simp
  have w': "w' = snd (commit proj w (simos_syscall_cc proj (state w)) num name as)"
    and "fst (commit proj w (simos_syscall_cc proj (state w)) num name as) = DONE"
    by (simp_all add: eq)
  then obtain succ_st where
    "bureau_invoke_syscall proj (update_scratch (state w)) num as
       (simos_syscall_cc proj (state w)) = Inr succ_st"
    by (auto simp: commit_fst split: sum.splits)
  with res w' show ?thesis by blast
qed

lemma blacklist_names_nonempty: "name \<in> syscall_blacklist abi \<Longrightarrow> name \<noteq> []"
  by (auto simp: syscall_blacklist_def dict_get_def SYSCALL_BYPASS_LISTS_def
                 BASE_SYSCALL_BYPASS_LIST_def split: if_splits)

lemma commit_raises:
  assumes "bureau_invoke_syscall proj (update_scratch (state w)) num as cc = Inl e"
  shows "commit proj w cc num name as =
     (FATAL e,
      w\<lparr>state := update_scratch (state w),
        successors := (successors w)
          \<lparr>sort' := Some ''SimProcedure'',
           artifacts := (artifacts (successors w))
             (''is_syscall'' \<mapsto> Bool_artifact True, ''name'' \<mapsto> Str_artifact name,
              ''no_ret'' \<mapsto> Bool_artifact False, ''adds_exits'' \<mapsto> Bool_artifact True)\<rparr>,
        trace := trace w @
          [Inspect ''syscall'' BP_BEFORE name,
           Invoke_syscall (update_scratch (state w)) num as cc]\<rparr>)"
  using assms by (simp add: commit_def Let_def inspect_def)

lemma commit_DONE:
  assumes "bureau_invoke_syscall proj (update_scratch (state w)) num as cc = Inr succ_st"
  shows "fst (commit proj w cc num name as) = DONE"
  using assms by (simp add: commit_fst)

lemma commit_state:
  assumes "bureau_invoke_syscall proj (update_scratch (state w)) num as cc = Inr succ_st"
  shows "state (snd (commit proj w cc num name as)) = update_scratch (state w)"
  using assms by (simp add: commit_def Let_def inspect_def)

lemma commit_trace:
  assumes "bureau_invoke_syscall proj (update_scratch (state w)) num as cc = Inr succ_st"
  shows "trace (snd (commit proj w cc num name as)) =
     trace w @
       [Inspect ''syscall'' BP_BEFORE name,
        Invoke_syscall (update_scratch (state w)) num as cc,
        Add_successor
          \<lparr>succ_state = succ_st,
           succ_target = return_addr_get_value cc (update_scratch (state w)),
           succ_guard = claripy_true, succ_jumpkind = ''Ijk_Ret''\<rparr>,
        Inspect ''syscall'' BP_AFTER name]"
  using assms by (simp add: commit_def Let_def inspect_def)

lemma commit_all_successors:
  assumes "bureau_invoke_syscall proj (update_scratch (state w)) num as cc = Inr succ_st"
  shows "all_successors (successors (snd (commit proj w cc num name as))) =
     all_successors (successors w) @
       [\<lparr>succ_state = succ_st,
         succ_target = return_addr_get_value cc (update_scratch (state w)),
         succ_guard = claripy_true, succ_jumpkind = ''Ijk_Ret''\<rparr>]"
  using assms by (simp add: commit_def Let_def inspect_def add_successor_def)

lemma commit_flags:
  assumes "bureau_invoke_syscall proj (update_scratch (state w)) num as cc = Inr succ_st"
  shows "processed (successors (snd (commit proj w cc num name as))) = True"
    "sort' (successors (snd (commit proj w cc num name as))) = Some ''SimProcedure''"
    "description (successors (snd (commit proj w cc num name as))) =
       Some (''SimProcedure '' @ name @ '' (syscall)'')"
  using assms by (simp_all add: commit_def Let_def inspect_def add_successor_def)


lemma commit_invocations:
  "filter is_invoke (trace (snd (commit proj w cc num name as))) =
     filter is_invoke (trace w) @ [Invoke_syscall (update_scratch (state w)) num as cc]"
  by (cases "bureau_invoke_syscall proj (update_scratch (state w)) num as cc")
     (simp_all add: commit_raises commit_trace)

lemma commit_no_successor_unless_DONE:
  assumes "fst (commit proj w cc num name as) \<noteq> DONE"
  shows "all_successors (successors (snd (commit proj w cc num name as)))
           = all_successors (successors w)"
    "processed (successors (snd (commit proj w cc num name as))) = processed (successors w)"
    "description (successors (snd (commit proj w cc num name as)))
           = description (successors w)"
  using assms
  by (cases "bureau_invoke_syscall proj (update_scratch (state w)) num as cc";
      simp add: commit_raises commit_fst)+

lemma remote_invocations_append:
  "remote_invocations (xs @ ys) = remote_invocations xs + remote_invocations ys"
  by (simp add: remote_invocations_def)

subsection \<open>The concrete configuration, evaluated\<close>

lemma ex_state_simps:
  "after_syscall_jump (ex_state opts)"
  "eval_one (ex_state opts) (BVV v) = Some v"
  "eval_one (ex_state opts) (BVS x) = None"
  "symbolic (ex_state opts) (BVV v) = False"
  "symbolic (ex_state opts) (BVS x) = True"
  "options (ex_state opts) = opts"
  "arch_name (ex_state opts) = ''AMD64''"
  "satisfiable (ex_state opts) = True"
  by (simp_all add: ex_state_def after_syscall_jump_def)

lemma ex_amd64_simps:
  "syscall_num (simos_syscall_cc (ex_amd64 n as) st) st' = n"
  "arg (simos_syscall_cc (ex_amd64 n as) st) st' i =
     (if i < length as then as ! i else BVV 0)"
  "syscall_abi (ex_amd64 n as) st num = Inr ''amd64''"
  "syscall_number_mapping (ex_amd64 n as) ''amd64'' =
     [0 \<mapsto> ''read'', 1 \<mapsto> ''write'', 2 \<mapsto> ''open'']"
  "get_prototype (ex_amd64 n as) ''amd64'' name arch =
     (if name = ''open'' then Some \<lparr>args = [''char*'', ''int'', ''int'']\<rparr> else None)"
  by (simp_all add: ex_amd64_def ex_project_def ex_cc_def syscall_abi_def)

lemma state_ex_world: "state (ex_world opts) = ex_state opts"
  by (simp add: ex_world_def)

subsection \<open>Bypassed syscalls\<close>

text \<open>
  C1. Whenever the syscall number evaluates to one value, the ABI resolves and the name
  the library gives is in the bypass set of that ABI, the dispatcher hands the call to the
  next mixin (\<open>LOCAL\<close>) with the world exactly as it received it: no successor is added
  and the bureau is not invoked. Nothing is assumed of the arguments, so this holds
  whether they are concrete or not, and also whether or not the step follows a syscall
  jump. For \<^verbatim>\<open>amd64\<close> the bypass set is exactly mmap, munmap, brk, write, read, exit,
  exit\_group, so a \<^verbatim>\<open>write\<close> whose arguments are all concrete goes to \<open>LOCAL\<close>.
\<close>

theorem bypassed_syscall_demotes_to_local:
  "(eval_one (state w) (syscall_num (simos_syscall_cc proj (state w)) (state w)) = Some num
      \<and> syscall_abi proj (state w) num = Inr abi
      \<and> syscall_number_mapping proj abi num = Some name
      \<and> name \<in> syscall_blacklist abi
     \<longrightarrow> process_successors proj w = (LOCAL, w)
         \<and> all_successors (successors (snd (process_successors proj w)))
             = all_successors (successors w)
         \<and> remote_invocations (trace (snd (process_successors proj w)))
             = remote_invocations (trace w))
   \<and> syscall_blacklist ''amd64'' =
       {''mmap'', ''munmap'', ''brk'', ''write'', ''read'', ''exit'', ''exit_group''}
   \<and> (eval_one (state w') (syscall_num (simos_syscall_cc proj' (state w')) (state w')) = Some num'
      \<and> syscall_abi proj' (state w') num' = Inr ''amd64''
      \<and> syscall_number_mapping proj' ''amd64'' num' = Some ''write''
      \<and> (\<forall>i. \<not> symbolic (state w') (arg (simos_syscall_cc proj' (state w')) (state w') i))
     \<longrightarrow> process_successors proj' w' = (LOCAL, w'))"
proof -
  have general: "process_successors p v = (LOCAL, v)"
    if "eval_one (state v) (syscall_num (simos_syscall_cc p (state v)) (state v)) = Some n"
      and "syscall_abi p (state v) n = Inr a"
      and "syscall_number_mapping p a n = Some nm"
      and "nm \<in> syscall_blacklist a"
    for p :: "'x project" and v n a nm
  proof (cases "after_syscall_jump (state v)")
    case True
    from that(4) have "nm \<noteq> []" by (rule blacklist_names_nonempty)
    with True that show ?thesis
      by (simp add: process_successors_resolved)
  next
    case False
    then show ?thesis by (rule process_successors_no_jump)
  qed
  have amd64: "syscall_blacklist ''amd64'' =
       {''mmap'', ''munmap'', ''brk'', ''write'', ''read'', ''exit'', ''exit_group''}"
    by (simp add: blacklist_amd64 BASE_SYSCALL_BYPASS_LIST_def)
  have wr: "''write'' \<in> syscall_blacklist ''amd64''"
    by (simp add: amd64)
  show ?thesis
    using general [of w proj num abi name] general [of w' proj' num' "''amd64''" "''write''"]
      amd64 wr
    by simp
qed

theorem bypassed_syscall_demotes_to_local_witness:
  "process_successors (ex_amd64 (BVV 1) [BVV 1, BVS ''buf'', BVV 12]) (ex_world {})
     = (LOCAL, ex_world {})
   \<and> process_successors (ex_amd64 (BVV 1) [BVV 1, BVV 4096, BVV 12]) (ex_world {})
     = (LOCAL, ex_world {})"
proof -
  have a: "process_successors (ex_amd64 (BVV 1) [BVV 1, BVS ''buf'', BVV 12]) (ex_world {})
     = (LOCAL, ex_world {})"
    using bypassed_syscall_demotes_to_local
      [of "ex_world {}" "ex_amd64 (BVV 1) [BVV 1, BVS ''buf'', BVV 12]" 1 "''amd64''" "''write''",
       THEN conjunct1]
    by (simp add: state_ex_world ex_state_simps ex_amd64_simps blacklist_amd64 BASE_members)
  have c: "\<forall>i. \<not> symbolic (ex_state {})
             (arg (simos_syscall_cc (ex_amd64 (BVV 1) [BVV 1, BVV 4096, BVV 12]) (ex_state {}))
                (ex_state {}) i)"
    by (simp add: ex_amd64_simps ex_state_simps nth_Cons')
  have b: "process_successors (ex_amd64 (BVV 1) [BVV 1, BVV 4096, BVV 12]) (ex_world {})
     = (LOCAL, ex_world {})"
    using c bypassed_syscall_demotes_to_local
      [of _ _ _ _ _ "ex_world {}" "ex_amd64 (BVV 1) [BVV 1, BVV 4096, BVV 12]" 1,
       THEN conjunct2, THEN conjunct2]
    by (simp add: state_ex_world ex_state_simps(1,2,6,7,8) ex_amd64_simps(1,3,4,5))
  from a b show ?thesis by simp
qed

subsection \<open>Symbolic arguments\<close>

text \<open>
  C2. Take a dispatch in which the syscall number, the ABI, the name and the prototype
  resolve, and in which the argument at some position \<open>k\<close> of the prototype is symbolic
  (the earlier arguments that are not symbolic having a value: \<open>eval_one\<close> does not fail
  on a non-symbolic expression). Then the dispatcher hands the call to the next mixin
  (\<open>LOCAL\<close>) with the world as it received it: the outcome is no fatal error and the
  bureau is not invoked. This holds whether the name is bypassed or not.
\<close>

theorem symbolic_argument_demotes_to_local:
  assumes "eval_one (state w) (syscall_num (simos_syscall_cc proj (state w)) (state w))
             = Some num"
    and "syscall_abi proj (state w) num = Inr abi"
    and "syscall_number_mapping proj abi num = Some name"
    and "name \<noteq> []"
    and "get_prototype proj abi name (arch_name (state w)) = Some syscall_proto"
    and "k < length (args syscall_proto)"
    and "symbolic (state w) (arg (simos_syscall_cc proj (state w)) (state w) k)"
    and "\<forall>j<k. \<not> symbolic (state w) (arg (simos_syscall_cc proj (state w)) (state w) j)
               \<longrightarrow> eval_one (state w) (arg (simos_syscall_cc proj (state w)) (state w) j)
                     \<noteq> None"
  shows "process_successors proj w = (LOCAL, w)
         \<and> (\<forall>e. fst (process_successors proj w) \<noteq> FATAL e)
         \<and> remote_invocations (trace (snd (process_successors proj w)))
             = remote_invocations (trace w)"
proof -
  let ?cc = "simos_syscall_cc proj (state w)"
  let ?xs = "enumerate 0 (args syscall_proto)"
  have loop: "extract_args (state w) ?cc ?xs [] = Return_super"
  proof (rule extract_args_first_symbolic [of k])
    show "k < length ?xs" using assms(6) by simp
    show "symbolic (state w) (arg ?cc (state w) (fst (?xs ! k)))"
      using assms(6,7) by (simp add: fst_enumerate_nth)
    fix j assume "j < k" "\<not> symbolic (state w) (arg ?cc (state w) (fst (?xs ! j)))"
    then show "eval_one (state w) (arg ?cc (state w) (fst (?xs ! j))) \<noteq> None"
      using assms(6,8) by (simp add: fst_enumerate_nth)
  qed
  have "process_successors proj w = (LOCAL, w)"
  proof (cases "after_syscall_jump (state w)")
    case True
    then show ?thesis
      using assms(1-5) loop by (simp add: process_successors_resolved)
  next
    case False
    then show ?thesis by (rule process_successors_no_jump)
  qed
  then show ?thesis by simp
qed

theorem symbolic_argument_demotes_to_local_witness:
  "process_successors (ex_amd64 (BVV 2) [BVV 4096, BVS ''flags'', BVV 0]) (ex_world {})
     = (LOCAL, ex_world {})"
proof -
  let ?p = "ex_amd64 (BVV 2) [BVV 4096, BVS ''flags'', BVV 0]"
  have "process_successors ?p (ex_world {}) = (LOCAL, ex_world {})
         \<and> (\<forall>e. fst (process_successors ?p (ex_world {})) \<noteq> FATAL e)
         \<and> remote_invocations (trace (snd (process_successors ?p (ex_world {}))))
             = remote_invocations (trace (ex_world {}))"
  proof (rule symbolic_argument_demotes_to_local
      [of "ex_world {}" ?p 2 "''amd64''" "''open''" "\<lparr>args = [''char*'', ''int'', ''int'']\<rparr>" 1])
    show "eval_one (state (ex_world {}))
            (syscall_num (simos_syscall_cc ?p (state (ex_world {}))) (state (ex_world {})))
          = Some 2"
      by (simp add: state_ex_world ex_state_simps ex_amd64_simps)
    show "syscall_abi ?p (state (ex_world {})) 2 = Inr ''amd64''"
      by (simp add: ex_amd64_simps)
    show "syscall_number_mapping ?p ''amd64'' 2 = Some ''open''"
      by (simp add: ex_amd64_simps)
    show "''open'' \<noteq> []" by simp
    show "get_prototype ?p ''amd64'' ''open'' (arch_name (state (ex_world {})))
            = Some \<lparr>args = [''char*'', ''int'', ''int'']\<rparr>"
      by (simp add: ex_amd64_simps)
    show "1 < length (args \<lparr>args = [''char*'', ''int'', ''int'']\<rparr>)" by simp
    show "symbolic (state (ex_world {}))
            (arg (simos_syscall_cc ?p (state (ex_world {}))) (state (ex_world {})) 1)"
      by (simp add: state_ex_world ex_state_simps ex_amd64_simps)
    show "\<forall>j<1. \<not> symbolic (state (ex_world {}))
                    (arg (simos_syscall_cc ?p (state (ex_world {}))) (state (ex_world {})) j)
               \<longrightarrow> eval_one (state (ex_world {}))
                     (arg (simos_syscall_cc ?p (state (ex_world {}))) (state (ex_world {})) j)
                     \<noteq> None"
      by (simp add: state_ex_world ex_state_simps ex_amd64_simps)
  qed
  then show ?thesis by simp
qed

subsection \<open>Failed resolution of the syscall number\<close>

text \<open>
  C5. After a syscall jump, a syscall number that cannot be resolved ends the dispatch
  with an exception and leaves the world as it was (no successor, no call of the bureau).
  When \<open>eval_one\<close> fails on the number expression, the exception is
  \<^verbatim>\<open>AngrUnsupportedSyscallError\<close> with the first message (the spec's
  \<open>AmbiguousSyscallNumber\<close>) if \<^verbatim>\<open>BYPASS_UNSUPPORTED_SYSCALL\<close> is not among the options,
  else with the second message (\<open>UnsatisfiableState\<close>) if the state is not satisfiable,
  else with the third (\<open>SymbolicSyscallNumber\<close>). When the number is concrete, the ABI
  resolves and the number has no entry in the mapping of that ABI, the exception is
  \<^verbatim>\<open>AngrUnsupportedSyscallError\<close> with the fourth message (\<open>UnknownSyscallNumber\<close>) if the
  option is not set, and the \<^verbatim>\<open>NotImplementedError\<close> placeholder if it is.
\<close>

theorem failed_number_resolution_is_fatal:
  assumes "after_syscall_jump (state w)"
  shows "(eval_one (state w) (syscall_num (simos_syscall_cc proj (state w)) (state w)) = None
          \<longrightarrow> process_successors proj w =
               (FATAL (AngrUnsupportedSyscallError
                  (if BYPASS_UNSUPPORTED_SYSCALL \<notin> options (state w)
                   then Not_configured_to_support_syscalls
                   else if \<not> satisfiable (state w) then State_not_satisfiable
                   else Symbolic_syscall_number)), w))
       \<and> (eval_one (state w) (syscall_num (simos_syscall_cc proj (state w)) (state w))
            = Some num
          \<and> syscall_abi proj (state w) num = Inr abi
          \<and> syscall_number_mapping proj abi num = None
          \<longrightarrow> process_successors proj w =
               (FATAL (if BYPASS_UNSUPPORTED_SYSCALL \<notin> options (state w)
                       then AngrUnsupportedSyscallError
                              (Not_found_in_syscall_mapping num (lower (arch_name (state w))))
                       else NotImplementedError ''what to do...''), w))"
  using assms by (simp add: process_successors_def Let_def)

theorem failed_number_resolution_is_fatal_witness:
  "process_successors (ex_amd64 (BVS ''rax'') []) (ex_world {})
     = (FATAL (AngrUnsupportedSyscallError Not_configured_to_support_syscalls), ex_world {})
   \<and> process_successors (ex_amd64 (BVS ''rax'') []) (ex_world {BYPASS_UNSUPPORTED_SYSCALL})
     = (FATAL (AngrUnsupportedSyscallError Symbolic_syscall_number),
        ex_world {BYPASS_UNSUPPORTED_SYSCALL})
   \<and> process_successors (ex_amd64 (BVV 999) []) (ex_world {})
     = (FATAL (AngrUnsupportedSyscallError (Not_found_in_syscall_mapping 999 ''amd64'')),
        ex_world {})"
proof -
  have a: "after_syscall_jump (state (ex_world opts))" for opts
    by (simp add: state_ex_world ex_state_simps)
  have l: "lower ''AMD64'' = ''amd64''"
    by code_simp
  show ?thesis
    using failed_number_resolution_is_fatal [OF a, of "{}" "ex_amd64 (BVS ''rax'') []", THEN conjunct1]
      failed_number_resolution_is_fatal [OF a, of "{BYPASS_UNSUPPORTED_SYSCALL}"
         "ex_amd64 (BVS ''rax'') []", THEN conjunct1]
      failed_number_resolution_is_fatal [OF a, of "{}" "ex_amd64 (BVV 999) []" 999 "''amd64''",
         THEN conjunct2]
    by (simp add: state_ex_world ex_state_simps ex_amd64_simps l)
qed

subsection \<open>Argument concretization\<close>

text \<open>
  C6, as amended. The argument loop, run over the positions of the prototype, completes
  exactly when every argument at a position below the prototype's argument count passes
  the loop's own test, that is, the solver does not call it symbolic, and has its unique
  value under \<open>eval_one\<close>. When it completes, the sequence it built has as many entries
  as the prototype has arguments, and the entry at each position is the unique value
  \<open>eval_one\<close> gives for the argument at that position (nothing is sampled, the order is
  kept). When the first argument that does not pass is symbolic, the loop ends at once
  with the return to the next mixin, whatever the later arguments are and whether or not
  the constraints leave that argument a single value, and yields no argument sequence;
  and when \<open>eval_one\<close> has a value for every non-symbolic argument, any symbolic argument
  at all gives that result.
\<close>

theorem extract_args_all_or_fallback:
  "((\<exists>as. extract_args st cc (enumerate 0 (args (syscall_proto :: sim_prototype))) []
            = Continue as)
      \<longleftrightarrow> (\<forall>i < length (args syscall_proto).
             \<not> symbolic st (arg cc st i) \<and> eval_one st (arg cc st i) \<noteq> None))
   \<and> (extract_args st cc (enumerate 0 (args syscall_proto)) [] = Continue as
      \<longrightarrow> length as = length (args syscall_proto)
        \<and> (\<forall>i < length (args syscall_proto). eval_one st (arg cc st i) = Some (as ! i)))
   \<and> (k < length (args syscall_proto) \<and> symbolic st (arg cc st k)
       \<and> (\<forall>j<k. \<not> symbolic st (arg cc st j) \<and> eval_one st (arg cc st j) \<noteq> None)
      \<longrightarrow> extract_args st cc (enumerate 0 (args syscall_proto)) [] = Return_super)
   \<and> ((\<forall>i < length (args syscall_proto).
          \<not> symbolic st (arg cc st i) \<longrightarrow> eval_one st (arg cc st i) \<noteq> None)
       \<and> (\<exists>i < length (args syscall_proto). symbolic st (arg cc st i))
      \<longrightarrow> extract_args st cc (enumerate 0 (args syscall_proto)) [] = Return_super)"
proof -
  let ?n = "length (args syscall_proto)"
  let ?xs = "enumerate 0 (args syscall_proto)"
  let ?ok = "\<lambda>i. \<not> symbolic st (arg cc st i) \<and> eval_one st (arg cc st i) \<noteq> None"
  have all_iff: "(\<forall>x \<in> set ?xs. ?ok (fst x)) \<longleftrightarrow> (\<forall>i < ?n. ?ok i)"
  proof
    assume h: "\<forall>x \<in> set ?xs. ?ok (fst x)"
    show "\<forall>i < ?n. ?ok i"
    proof (intro allI impI)
      fix i assume "i < ?n"
      then have "?xs ! i \<in> set ?xs" "fst (?xs ! i) = i"
        by (simp_all add: fst_enumerate_nth)
      with h show "?ok i" by metis
    qed
  next
    assume "\<forall>i < ?n. ?ok i"
    then show "\<forall>x \<in> set ?xs. ?ok (fst x)"
      using set_enumerate_fst by blast
  qed
  have success: "(\<exists>as. extract_args st cc ?xs [] = Continue as) \<longleftrightarrow> (\<forall>i < ?n. ?ok i)"
    unfolding extract_args_Continue_iff all_iff by blast
  have vals: "length as = ?n \<and> (\<forall>i < ?n. eval_one st (arg cc st i) = Some (as ! i))"
    if c: "extract_args st cc ?xs [] = Continue as"
  proof -
    from c have ok: "\<forall>i < ?n. ?ok i"
      and as: "as = map (\<lambda>x. the (eval_one st (arg cc st (fst x)))) ?xs"
      unfolding extract_args_Continue_iff all_iff by simp_all
    from as have len: "length as = ?n" by simp
    have "eval_one st (arg cc st i) = Some (as ! i)" if "i < ?n" for i
    proof -
      from that as have "as ! i = the (eval_one st (arg cc st i))"
        by (simp add: fst_enumerate_nth)
      moreover from ok that have "eval_one st (arg cc st i) \<noteq> None" by simp
      ultimately show ?thesis by auto
    qed
    with len show ?thesis by simp
  qed
  have first: "extract_args st cc ?xs [] = Return_super"
    if "k < ?n" "symbolic st (arg cc st k)" "\<forall>j<k. ?ok j"
  proof (rule extract_args_first_symbolic [of k])
    show "k < length ?xs" using that(1) by simp
    show "symbolic st (arg cc st (fst (?xs ! k)))"
      using that(1,2) by (simp add: fst_enumerate_nth)
    fix j assume "j < k"
    then show "eval_one st (arg cc st (fst (?xs ! j))) \<noteq> None"
      using that(1,3) by (simp add: fst_enumerate_nth)
  qed
  have any: "extract_args st cc ?xs [] = Return_super"
    if contract: "\<forall>i < ?n. \<not> symbolic st (arg cc st i) \<longrightarrow> eval_one st (arg cc st i) \<noteq> None"
      and ex: "\<exists>i < ?n. symbolic st (arg cc st i)"
  proof -
    define m where "m = (LEAST i. i < ?n \<and> symbolic st (arg cc st i))"
    from ex have m: "m < ?n \<and> symbolic st (arg cc st m)"
      unfolding m_def by (rule LeastI_ex)
    have before: "\<not> symbolic st (arg cc st j)" if "j < m" for j
    proof
      assume "symbolic st (arg cc st j)"
      with that m have "j < ?n \<and> symbolic st (arg cc st j)" by simp
      then have "m \<le> j" unfolding m_def by (rule Least_le)
      with that show False by simp
    qed
    show ?thesis
    proof (rule extract_args_first_symbolic [of m])
      show "m < length ?xs" using m by simp
      show "symbolic st (arg cc st (fst (?xs ! m)))"
        using m by (simp add: fst_enumerate_nth)
      fix j assume "j < m"
      with m contract before [of j]
      show "eval_one st (arg cc st (fst (?xs ! j))) \<noteq> None"
        by (simp add: fst_enumerate_nth)
    qed
  qed
  from success vals first any show ?thesis by blast
qed

lemma ex_cc_simps:
  "syscall_num (ex_cc n as) st = n"
  "arg (ex_cc n as) st i = (if i < length as then as ! i else BVV 0)"
  "return_addr_get_value (ex_cc n as) st = BVV 4198400"
  by (simp_all add: ex_cc_def)

theorem extract_args_all_or_fallback_witness:
  "(\<exists>as. extract_args (ex_state {}) (ex_cc (BVV 2) [BVV 4096, BVV 0, BVV 420])
            (enumerate 0 (args \<lparr>args = [''char*'', ''int'', ''int'']\<rparr>)) [] = Continue as)
   \<and> extract_args (ex_state {}) (ex_cc (BVV 2) [BVV 4096, BVV 0, BVV 420])
            (enumerate 0 (args \<lparr>args = [''char*'', ''int'', ''int'']\<rparr>)) []
         = Continue [4096, 0, 420]
   \<and> length [4096, 0, 420 :: int] = length (args \<lparr>args = [''char*'', ''int'', ''int'']\<rparr>)
   \<and> extract_args (ex_state {}) (ex_cc (BVV 2) [BVV 4096, BVS ''flags'', BVV 420])
            (enumerate 0 (args \<lparr>args = [''char*'', ''int'', ''int'']\<rparr>)) []
         = Return_super"
proof -
  let ?st = "ex_state {}"
  let ?c = "ex_cc (BVV 2) [BVV 4096, BVV 0, BVV 420]"
  let ?s = "ex_cc (BVV 2) [BVV 4096, BVS ''flags'', BVV 420]"
  let ?p = "\<lparr>args = [''char*'', ''int'', ''int'']\<rparr>"
  have run: "extract_args ?st ?c (enumerate 0 (args ?p)) [] = Continue [4096, 0, 420]"
    by (simp add: ex_cc_simps ex_state_simps)
  have ok: "\<forall>i < length (args ?p).
              \<not> symbolic ?st (arg ?c ?st i) \<and> eval_one ?st (arg ?c ?st i) \<noteq> None"
    by (simp add: ex_cc_simps ex_state_simps less_Suc_eq nth_Cons')
  have ex: "\<exists>as. extract_args ?st ?c (enumerate 0 (args ?p)) [] = Continue as"
    using extract_args_all_or_fallback [of ?st ?c ?p, THEN conjunct1] ok by blast
  have len: "length [4096, 0, 420 :: int] = length (args ?p)"
    using extract_args_all_or_fallback [of ?st ?c ?p "[4096, 0, 420]",
        THEN conjunct2, THEN conjunct1] run by blast
  have first: "extract_args ?st ?s (enumerate 0 (args ?p)) [] = Return_super"
    using extract_args_all_or_fallback [of ?st ?s ?p _ 1,
        THEN conjunct2, THEN conjunct2, THEN conjunct1]
    by (simp add: ex_cc_simps ex_state_simps)
  have contract: "\<forall>i < length (args ?p).
       \<not> symbolic ?st (arg ?s ?st i) \<longrightarrow> eval_one ?st (arg ?s ?st i) \<noteq> None"
    by (simp add: ex_cc_simps ex_state_simps less_Suc_eq nth_Cons')
  have sym: "\<exists>i < length (args ?p). symbolic ?st (arg ?s ?st i)"
    by (rule exI [of _ 1]) (simp add: ex_cc_simps ex_state_simps)
  have "extract_args ?st ?s (enumerate 0 (args ?p)) [] = Return_super"
    using extract_args_all_or_fallback [of ?st ?s ?p,
        THEN conjunct2, THEN conjunct2, THEN conjunct2] contract sym by blast
  with run ex len first show ?thesis by blast
qed

text \<open>
  C6, as stated, has the loop complete exactly when every argument is provably a single
  concrete value. In a state whose constraints leave the unknown \<open>flags\<close> the single
  value 5, each of the three arguments of \<^verbatim>\<open>open\<close> has exactly one value, which
  \<open>eval_one\<close> gives; the solver still calls the second one symbolic, and the loop
  returns to the next mixin instead of completing.
\<close>

theorem single_valued_symbolic_argument_counterexample:
  "length (args \<lparr>args = [''char*'', ''int'', ''int'']\<rparr>) = 3
   \<and> eval_one ex_state_pinned
         (arg (ex_cc (BVV 2) [BVV 4096, BVS ''flags'', BVV 420]) ex_state_pinned 0) = Some 4096
   \<and> eval_one ex_state_pinned
         (arg (ex_cc (BVV 2) [BVV 4096, BVS ''flags'', BVV 420]) ex_state_pinned 1) = Some 5
   \<and> eval_one ex_state_pinned
         (arg (ex_cc (BVV 2) [BVV 4096, BVS ''flags'', BVV 420]) ex_state_pinned 2) = Some 420
   \<and> symbolic ex_state_pinned
         (arg (ex_cc (BVV 2) [BVV 4096, BVS ''flags'', BVV 420]) ex_state_pinned 1)
   \<and> extract_args ex_state_pinned (ex_cc (BVV 2) [BVV 4096, BVS ''flags'', BVV 420])
         (enumerate 0 (args \<lparr>args = [''char*'', ''int'', ''int'']\<rparr>)) [] = Return_super
   \<and> extract_args ex_state_pinned (ex_cc (BVV 2) [BVV 4096, BVS ''flags'', BVV 420])
         (enumerate 0 (args \<lparr>args = [''char*'', ''int'', ''int'']\<rparr>)) []
       \<noteq> Continue [4096, 5, 420]"
  by (simp add: ex_state_pinned_def ex_state_def ex_cc_simps)

subsection \<open>The commit path\<close>

lemma update_scratch_simps:
  "scratch_sim_procedure (update_scratch st) = None"
  "history (update_scratch st) = map_option (set_recent_block_count 1) (history st)"
  "eval_one (update_scratch st) = eval_one st"
  "symbolic (update_scratch st) = symbolic st"
  "options (update_scratch st) = options st"
  "arch_name (update_scratch st) = arch_name st"
  by (simp_all add: update_scratch_def)

lemma after_syscall_jump_history: "after_syscall_jump st \<Longrightarrow> \<exists>h. history st = Some h"
  by (auto simp: after_syscall_jump_def split: option.splits)

lemma update_scratch_recent_block_count:
  "after_syscall_jump st \<Longrightarrow>
   map_option recent_block_count (history (update_scratch st)) = Some 1"
  by (auto simp: update_scratch_simps set_recent_block_count_def
           dest: after_syscall_jump_history)



lemma ex_open_resolved:
  "after_syscall_jump (state (ex_world opts))"
  "eval_one (state (ex_world opts))
     (syscall_num (simos_syscall_cc (ex_amd64 (BVV 2) as) (state (ex_world opts)))
        (state (ex_world opts))) = Some 2"
  "syscall_abi (ex_amd64 (BVV 2) as) (state (ex_world opts)) 2 = Inr ''amd64''"
  "syscall_number_mapping (ex_amd64 (BVV 2) as) ''amd64'' 2 = Some ''open''"
  "''open'' \<notin> syscall_blacklist ''amd64''"
  "get_prototype (ex_amd64 (BVV 2) as) ''amd64'' ''open'' (arch_name (state (ex_world opts)))
     = Some \<lparr>args = [''char*'', ''int'', ''int'']\<rparr>"
  by (simp_all add: state_ex_world ex_state_simps ex_amd64_simps blacklist_amd64 BASE_members)


lemma ex_amd64_bureau:
  "bureau_invoke_syscall (ex_amd64 n as) st num vs cc
     = Inr (st\<lparr>scratch_sim_procedure := Some ''returned''\<rparr>)"
  by (simp add: ex_amd64_def ex_project_def)

lemma ex_open_loop:
  "extract_args (state (ex_world opts))
     (simos_syscall_cc (ex_amd64 (BVV 2) [BVV 4096, BVV 0, BVV 420]) (state (ex_world opts)))
     (enumerate 0 (args \<lparr>args = [''char*'', ''int'', ''int'']\<rparr>)) []
   = Continue [4096, 0, 420]"
  by (simp add: state_ex_world ex_state_simps ex_amd64_simps)

lemma ex_open_DONE:
  "fst (process_successors (ex_amd64 (BVV 2) [BVV 4096, BVV 0, BVV 420]) (ex_world opts)) = DONE"
  "snd (process_successors (ex_amd64 (BVV 2) [BVV 4096, BVV 0, BVV 420]) (ex_world opts)) =
     snd (commit (ex_amd64 (BVV 2) [BVV 4096, BVV 0, BVV 420]) (ex_world opts)
       (simos_syscall_cc (ex_amd64 (BVV 2) [BVV 4096, BVV 0, BVV 420]) (state (ex_world opts)))
       2 ''open'' [4096, 0, 420])"
proof -
  let ?p = "ex_amd64 (BVV 2) [BVV 4096, BVV 0, BVV 420]"
  let ?w = "ex_world opts"
  have "process_successors ?p ?w =
          commit ?p ?w (simos_syscall_cc ?p (state ?w)) 2 ''open'' [4096, 0, 420]"
    using process_successors_resolved [of ?w ?p 2 "''amd64''" "''open''"]
      ex_open_resolved ex_open_loop
    by simp
  then show "fst (process_successors ?p ?w) = DONE"
    "snd (process_successors ?p ?w) =
       snd (commit ?p ?w (simos_syscall_cc ?p (state ?w)) 2 ''open'' [4096, 0, 420])"
    by (simp_all add: commit_DONE [OF ex_amd64_bureau])
qed


lemma ex_write_LOCAL:
  "process_successors (ex_amd64 (BVV 1) as) (ex_world opts) = (LOCAL, ex_world opts)"
  using process_successors_resolved [of "ex_world opts" "ex_amd64 (BVV 1) as" 1 "''amd64''" "''write''"]
  by (simp add: state_ex_world ex_state_simps ex_amd64_simps blacklist_amd64 BASE_members)

lemma ex_symbolic_number_FATAL:
  "process_successors (ex_amd64 (BVS ''rax'') as) (ex_world {})
     = (FATAL (AngrUnsupportedSyscallError Not_configured_to_support_syscalls), ex_world {})"
  by (simp add: process_successors_def Let_def state_ex_world ex_state_simps ex_amd64_simps)

lemma ex_open_run:
  "process_successors (ex_amd64 (BVV 2) [BVV 4096, BVV 0, BVV 420]) (ex_world opts) =
     (DONE, snd (process_successors (ex_amd64 (BVV 2) [BVV 4096, BVV 0, BVV 420])
                   (ex_world opts)))"
  using ex_open_DONE(1) [of opts] by (metis prod.collapse)

lemma ex_failing_bureau_simps:
  "simos_syscall_cc (ex_failing_bureau n as) = simos_syscall_cc (ex_amd64 n as)"
  "syscall_abi (ex_failing_bureau n as) st num = Inr ''amd64''"
  "syscall_number_mapping (ex_failing_bureau n as) = syscall_number_mapping (ex_amd64 n as)"
  "get_prototype (ex_failing_bureau n as) = get_prototype (ex_amd64 n as)"
  "bureau_invoke_syscall (ex_failing_bureau n as) st num vs cc
     = Inl (BureauError ''no answer'')"
  by (simp_all add: ex_failing_bureau_def syscall_abi_def ex_amd64_def ex_project_def)

lemma ex_failing_bureau_run:
  "process_successors (ex_failing_bureau (BVV 2) [BVV 4096, BVV 0, BVV 420]) (ex_world opts) =
     commit (ex_failing_bureau (BVV 2) [BVV 4096, BVV 0, BVV 420]) (ex_world opts)
       (simos_syscall_cc (ex_amd64 (BVV 2) [BVV 4096, BVV 0, BVV 420]) (state (ex_world opts)))
       2 ''open'' [4096, 0, 420]"
  using process_successors_resolved
    [of "ex_world opts" "ex_failing_bureau (BVV 2) [BVV 4096, BVV 0, BVV 420]" 2
        "''amd64''" "''open''"]
    ex_open_resolved ex_open_loop
  by (simp add: ex_failing_bureau_simps)

subsection \<open>All or nothing\<close>

text \<open>
  C7, as amended. A dispatch that hands the call to the next mixin (\<open>LOCAL\<close>) leaves the
  world exactly as it received it, and so does every dispatch that raises (\<open>FATAL\<close>)
  without having invoked the bureau: the sort, the artifacts, the description, the
  processed flag and the successors of the successors object and the state with its
  scratch bookkeeping are unchanged. The only raise that comes after the bureau was
  invoked is the error with which the bureau answered that call. No dispatch that does
  not run to its end adds a successor or touches the processed flag or the description.
  A dispatch that runs to its end (\<open>DONE\<close>) has added exactly one successor and set the
  processed flag. Whenever the bureau is invoked, it is invoked once, in one call that
  carries an argument for every position of the prototype, so no outcome has part of the
  arguments sent to the bureau.
\<close>

theorem dispatch_is_all_or_nothing_before_the_remote_call:
  "(fst (process_successors proj w) = LOCAL \<longrightarrow> snd (process_successors proj w) = w)
   \<and> (fst (process_successors proj w) \<noteq> DONE
        \<and> remote_invocations (trace (snd (process_successors proj w)))
            = remote_invocations (trace w)
        \<longrightarrow> snd (process_successors proj w) = w
          \<and> sort' (successors (snd (process_successors proj w))) = sort' (successors w)
          \<and> artifacts (successors (snd (process_successors proj w))) = artifacts (successors w)
          \<and> state (snd (process_successors proj w)) = state w)
   \<and> (fst (process_successors proj w) = FATAL e
        \<longrightarrow> snd (process_successors proj w) = w
          \<or> (\<exists>num abi name syscall_proto as.
                syscall_number_mapping proj abi num = Some name
                \<and> get_prototype proj abi name (arch_name (state w)) = Some syscall_proto
                \<and> length as = length (args syscall_proto)
                \<and> bureau_invoke_syscall proj (update_scratch (state w)) num as
                     (simos_syscall_cc proj (state w)) = Inl e))
   \<and> (fst (process_successors proj w) \<noteq> DONE
        \<longrightarrow> all_successors (successors (snd (process_successors proj w)))
              = all_successors (successors w)
          \<and> processed (successors (snd (process_successors proj w)))
              = processed (successors w)
          \<and> description (successors (snd (process_successors proj w)))
              = description (successors w))
   \<and> (fst (process_successors proj w) = DONE
        \<longrightarrow> length (all_successors (successors (snd (process_successors proj w))))
              = length (all_successors (successors w)) + 1
          \<and> processed (successors (snd (process_successors proj w))))
   \<and> (remote_invocations (trace (snd (process_successors proj w)))
         \<noteq> remote_invocations (trace w)
        \<longrightarrow> (\<exists>num abi name syscall_proto as.
                syscall_number_mapping proj abi num = Some name
                \<and> get_prototype proj abi name (arch_name (state w)) = Some syscall_proto
                \<and> filter is_invoke (trace (snd (process_successors proj w)))
                    = filter is_invoke (trace w) @
                        [Invoke_syscall (update_scratch (state w)) num as
                           (simos_syscall_cc proj (state w))]
                \<and> length as = length (args syscall_proto)))"
proof -
  let ?r = "process_successors proj w"
  let ?cc = "simos_syscall_cc proj (state w)"
  consider (same) "snd ?r = w" "fst ?r \<noteq> DONE"
    | (commit) num abi name syscall_proto as where
        "syscall_number_mapping proj abi num = Some name"
        "get_prototype proj abi name (arch_name (state w)) = Some syscall_proto"
        "extract_args (state w) ?cc (enumerate 0 (args syscall_proto)) [] = Continue as"
        "?r = commit proj w ?cc num name as"
    using process_successors_cases [of proj w] by fastforce
  then show ?thesis
  proof cases
    case same
    then show ?thesis by simp
  next
    case commit
    from commit(3) have len: "length as = length (args syscall_proto)"
      unfolding extract_args_Continue_iff by simp
    have inv: "filter is_invoke (trace (snd ?r))
                 = filter is_invoke (trace w) @
                     [Invoke_syscall (update_scratch (state w)) num as ?cc]"
      by (simp add: commit(4) commit_invocations)
    then have count: "remote_invocations (trace (snd ?r)) = remote_invocations (trace w) + 1"
      by (simp add: remote_invocations_def)
    have call: "\<exists>num abi name syscall_proto as.
                syscall_number_mapping proj abi num = Some name
                \<and> get_prototype proj abi name (arch_name (state w)) = Some syscall_proto
                \<and> filter is_invoke (trace (snd ?r))
                    = filter is_invoke (trace w) @
                        [Invoke_syscall (update_scratch (state w)) num as ?cc]
                \<and> length as = length (args syscall_proto)"
      using commit(1,2) inv len by blast
    show ?thesis
    proof (cases "bureau_invoke_syscall proj (update_scratch (state w)) num as ?cc")
      case (Inl e')
      have fatal: "fst ?r = FATAL e'"
        by (simp add: commit(4) commit_fst Inl)
      have raised: "\<exists>num abi name syscall_proto as.
                syscall_number_mapping proj abi num = Some name
                \<and> get_prototype proj abi name (arch_name (state w)) = Some syscall_proto
                \<and> length as = length (args syscall_proto)
                \<and> bureau_invoke_syscall proj (update_scratch (state w)) num as ?cc = Inl e'"
        using commit(1,2) len Inl by blast
      have keep: "all_successors (successors (snd ?r)) = all_successors (successors w)"
        "processed (successors (snd ?r)) = processed (successors w)"
        "description (successors (snd ?r)) = description (successors w)"
        by (simp_all add: commit(4) commit_raises [OF Inl])
      from fatal raised keep count call show ?thesis by auto
    next
      case (Inr succ_st)
      have fin: "fst ?r = DONE"
        by (simp add: commit(4) commit_fst Inr)
      have one: "length (all_successors (successors (snd ?r)))
                   = length (all_successors (successors w)) + 1"
        by (simp add: commit(4) commit_all_successors [OF Inr])
      have flag: "processed (successors (snd ?r))"
        by (simp add: commit(4) commit_flags [OF Inr])
      from fin one flag count call show ?thesis by simp
    qed
  qed
qed

theorem dispatch_is_all_or_nothing_before_the_remote_call_witness:
  "snd (process_successors (ex_amd64 (BVV 1) [BVV 1, BVV 4096, BVV 12]) (ex_world {}))
     = ex_world {}
   \<and> snd (process_successors (ex_amd64 (BVS ''rax'') []) (ex_world {})) = ex_world {}
   \<and> all_successors (successors
        (snd (process_successors (ex_failing_bureau (BVV 2) [BVV 4096, BVV 0, BVV 420])
                (ex_world {})))) = []
   \<and> length (all_successors (successors
        (snd (process_successors (ex_amd64 (BVV 2) [BVV 4096, BVV 0, BVV 420])
                (ex_world {}))))) = 1
   \<and> processed (successors
        (snd (process_successors (ex_amd64 (BVV 2) [BVV 4096, BVV 0, BVV 420])
                (ex_world {}))))"
proof -
  note main = dispatch_is_all_or_nothing_before_the_remote_call
  have a: "snd (process_successors (ex_amd64 (BVV 1) [BVV 1, BVV 4096, BVV 12]) (ex_world {}))
     = ex_world {}"
    using main [of "ex_amd64 (BVV 1) [BVV 1, BVV 4096, BVV 12]" "ex_world {}", THEN conjunct1]
    by (simp add: ex_write_LOCAL)
  have b: "snd (process_successors (ex_amd64 (BVS ''rax'') []) (ex_world {})) = ex_world {}"
    using main [of "ex_amd64 (BVS ''rax'') []" "ex_world {}",
                THEN conjunct2, THEN conjunct1]
    by (simp add: ex_symbolic_number_FATAL)
  have fb: "fst (process_successors (ex_failing_bureau (BVV 2) [BVV 4096, BVV 0, BVV 420])
                   (ex_world {})) = FATAL (BureauError ''no answer'')"
    by (simp add: ex_failing_bureau_run commit_fst ex_failing_bureau_simps)
  have c: "all_successors (successors
        (snd (process_successors (ex_failing_bureau (BVV 2) [BVV 4096, BVV 0, BVV 420])
                (ex_world {})))) = []"
  proof -
    from main [of "ex_failing_bureau (BVV 2) [BVV 4096, BVV 0, BVV 420]" "ex_world {}",
                THEN conjunct2, THEN conjunct2, THEN conjunct2, THEN conjunct1] fb
    have "all_successors (successors
        (snd (process_successors (ex_failing_bureau (BVV 2) [BVV 4096, BVV 0, BVV 420])
                (ex_world {})))) = all_successors (successors (ex_world {}))"
      by simp
    then show ?thesis by (simp add: ex_world_def)
  qed
  have d: "length (all_successors (successors
        (snd (process_successors (ex_amd64 (BVV 2) [BVV 4096, BVV 0, BVV 420])
                (ex_world {}))))) = 1
     \<and> processed (successors
        (snd (process_successors (ex_amd64 (BVV 2) [BVV 4096, BVV 0, BVV 420])
                (ex_world {}))))"
    using main [of "ex_amd64 (BVV 2) [BVV 4096, BVV 0, BVV 420]" "ex_world {}",
       THEN conjunct2, THEN conjunct2, THEN conjunct2, THEN conjunct2, THEN conjunct1]
       ex_open_DONE(1) [of "{}"]
    by (simp add: ex_world_def)
  from a b c d show ?thesis by simp
qed

text \<open>
  C7, as stated, has every fatal exit leave the successors object and the scratch
  bookkeeping untouched. With a bureau that answers the call with an error, the dispatch
  of the amd64 syscall 2 (\<^verbatim>\<open>open\<close>) with concrete arguments ends with that error, and by
  then the sort is \<^verbatim>\<open>SimProcedure\<close>, the artifact \<^verbatim>\<open>is_syscall\<close> is set and the scratch
  procedure marker is cleared, none of which held before; no successor was added and the
  processed flag is not set.
\<close>

theorem failing_bureau_leaves_partial_state_counterexample:
  "fst (process_successors (ex_failing_bureau (BVV 2) [BVV 4096, BVV 0, BVV 420]) (ex_world {}))
     = FATAL (BureauError ''no answer'')
   \<and> sort' (successors (ex_world {})) = None
   \<and> sort' (successors
        (snd (process_successors (ex_failing_bureau (BVV 2) [BVV 4096, BVV 0, BVV 420])
                (ex_world {})))) = Some ''SimProcedure''
   \<and> artifacts (successors (ex_world {})) ''is_syscall'' = None
   \<and> artifacts (successors
        (snd (process_successors (ex_failing_bureau (BVV 2) [BVV 4096, BVV 0, BVV 420])
                (ex_world {})))) ''is_syscall'' = Some (Bool_artifact True)
   \<and> scratch_sim_procedure (state (ex_world {})) = Some ''receive''
   \<and> scratch_sim_procedure (state
        (snd (process_successors (ex_failing_bureau (BVV 2) [BVV 4096, BVV 0, BVV 420])
                (ex_world {})))) = None
   \<and> all_successors (successors
        (snd (process_successors (ex_failing_bureau (BVV 2) [BVV 4096, BVV 0, BVV 420])
                (ex_world {})))) = []
   \<and> processed (successors
        (snd (process_successors (ex_failing_bureau (BVV 2) [BVV 4096, BVV 0, BVV 420])
                (ex_world {})))) = False
   \<and> snd (process_successors (ex_failing_bureau (BVV 2) [BVV 4096, BVV 0, BVV 420])
            (ex_world {})) \<noteq> ex_world {}"
proof -
  let ?r = "process_successors (ex_failing_bureau (BVV 2) [BVV 4096, BVV 0, BVV 420])
              (ex_world {})"
  have fields: "fst ?r = FATAL (BureauError ''no answer'')"
    "sort' (successors (snd ?r)) = Some ''SimProcedure''"
    "artifacts (successors (snd ?r)) ''is_syscall'' = Some (Bool_artifact True)"
    "scratch_sim_procedure (state (snd ?r)) = None"
    "all_successors (successors (snd ?r)) = all_successors (successors (ex_world {}))"
    "processed (successors (snd ?r)) = processed (successors (ex_world {}))"
    by (simp_all add: ex_failing_bureau_run
          commit_raises [OF ex_failing_bureau_simps(5)] update_scratch_simps)
  have before: "sort' (successors (ex_world {})) = None"
    "artifacts (successors (ex_world {})) ''is_syscall'' = None"
    "scratch_sim_procedure (state (ex_world {})) = Some ''receive''"
    "all_successors (successors (ex_world {})) = []"
    "processed (successors (ex_world {})) = False"
    by (simp_all add: ex_world_def ex_state_def)
  from fields(2) before(1) have "snd ?r \<noteq> ex_world {}" by auto
  with fields before show ?thesis by simp
qed

subsection \<open>Order of the effects on the commit path\<close>

text \<open>
  C8. On a dispatch that runs to its end, the calls to the collaborators are, in this
  order: the \<^verbatim>\<open>syscall\<close> instrumentation event with \<^verbatim>\<open>BP_BEFORE\<close> and the syscall name, the
  invocation of the bureau, the addition of the successor it returned, and the
  \<^verbatim>\<open>syscall\<close> event with \<^verbatim>\<open>BP_AFTER\<close>. The state the bureau is invoked on already has the
  scratch procedure marker cleared and the recent block count set to 1.
\<close>

theorem commit_events_in_order:
  assumes "process_successors proj w = (DONE, w')"
  shows "\<exists>num abi name as s st1.
      eval_one (state w) (syscall_num (simos_syscall_cc proj (state w)) (state w)) = Some num
    \<and> syscall_abi proj (state w) num = Inr abi
    \<and> syscall_number_mapping proj abi num = Some name
    \<and> trace w' = trace w @
         [Inspect ''syscall'' BP_BEFORE name,
          Invoke_syscall st1 num as (simos_syscall_cc proj (state w)),
          Add_successor s,
          Inspect ''syscall'' BP_AFTER name]
    \<and> scratch_sim_procedure st1 = None
    \<and> map_option recent_block_count (history st1) = Some 1
    \<and> bureau_invoke_syscall proj st1 num as (simos_syscall_cc proj (state w))
        = Inr (succ_state s)"
proof -
  let ?cc = "simos_syscall_cc proj (state w)"
  let ?st1 = "update_scratch (state w)"
  from process_successors_DONE_D [OF assms]
  obtain num abi name as succ_st where
    jump: "after_syscall_jump (state w)"
    and res: "eval_one (state w) (syscall_num ?cc (state w)) = Some num"
      "syscall_abi proj (state w) num = Inr abi"
      "syscall_number_mapping proj abi num = Some name"
    and bureau: "bureau_invoke_syscall proj ?st1 num as ?cc = Inr succ_st"
    and w': "w' = snd (commit proj w ?cc num name as)"
    by (elim exE conjE) assumption
  let ?s = "\<lparr>succ_state = succ_st,
            succ_target = return_addr_get_value ?cc ?st1,
            succ_guard = claripy_true, succ_jumpkind = ''Ijk_Ret''\<rparr>"
  have tr: "trace w' = trace w @
         [Inspect ''syscall'' BP_BEFORE name, Invoke_syscall ?st1 num as ?cc,
          Add_successor ?s, Inspect ''syscall'' BP_AFTER name]"
    by (simp add: w' commit_trace [OF bureau])
  have scr: "scratch_sim_procedure ?st1 = None"
    by (simp add: update_scratch_simps)
  have cnt: "map_option recent_block_count (history ?st1) = Some 1"
    using jump by (rule update_scratch_recent_block_count)
  have st: "bureau_invoke_syscall proj ?st1 num as ?cc = Inr (succ_state ?s)"
    using bureau by simp
  from res tr scr cnt st show ?thesis by blast
qed

theorem commit_events_in_order_witness:
  "length (trace (snd (process_successors (ex_amd64 (BVV 2) [BVV 4096, BVV 0, BVV 420])
                        (ex_world {})))) = 4
   \<and> trace (snd (process_successors (ex_amd64 (BVV 2) [BVV 4096, BVV 0, BVV 420])
                        (ex_world {}))) ! 0 = Inspect ''syscall'' BP_BEFORE ''open''
   \<and> is_invoke (trace (snd (process_successors (ex_amd64 (BVV 2) [BVV 4096, BVV 0, BVV 420])
                        (ex_world {}))) ! 1)
   \<and> trace (snd (process_successors (ex_amd64 (BVV 2) [BVV 4096, BVV 0, BVV 420])
                        (ex_world {}))) ! 3 = Inspect ''syscall'' BP_AFTER ''open''"
proof -
  let ?p = "ex_amd64 (BVV 2) [BVV 4096, BVV 0, BVV 420]"
  let ?w = "ex_world {}"
  from commit_events_in_order [OF ex_open_run [of "{}"]]
  obtain num abi name as s st1 where
    num: "eval_one (state ?w) (syscall_num (simos_syscall_cc ?p (state ?w)) (state ?w))
            = Some num"
    and abi: "syscall_abi ?p (state ?w) num = Inr abi"
    and name: "syscall_number_mapping ?p abi num = Some name"
    and tr: "trace (snd (process_successors ?p ?w)) = trace ?w @
         [Inspect ''syscall'' BP_BEFORE name,
          Invoke_syscall st1 num as (simos_syscall_cc ?p (state ?w)),
          Add_successor s,
          Inspect ''syscall'' BP_AFTER name]"
    by (elim exE conjE) assumption
  from num have "num = 2"
    by (simp add: state_ex_world ex_state_simps ex_amd64_simps)
  moreover from abi have "abi = ''amd64''"
    by (simp add: ex_amd64_simps)
  ultimately have "name = ''open''"
    using name by (simp add: ex_amd64_simps)
  moreover have "trace ?w = []" by (simp add: ex_world_def)
  ultimately show ?thesis using tr by simp
qed

subsection \<open>The description of a committed dispatch\<close>

text \<open>
  C9, as amended. On every dispatch that runs to its end, the description of the
  successors object is the string \<^verbatim>\<open>SimProcedure\<close>, a space, the resolved syscall name,
  and the suffix \<^verbatim>\<open> (syscall)\<close>.
\<close>

theorem committed_description:
  assumes "process_successors proj w = (DONE, w')"
  shows "\<exists>num abi name.
      eval_one (state w) (syscall_num (simos_syscall_cc proj (state w)) (state w)) = Some num
    \<and> syscall_abi proj (state w) num = Inr abi
    \<and> syscall_number_mapping proj abi num = Some name
    \<and> description (successors w') = Some (''SimProcedure '' @ name @ '' (syscall)'')"
proof -
  from process_successors_DONE_D [OF assms]
  obtain num abi name as succ_st where
    res: "eval_one (state w) (syscall_num (simos_syscall_cc proj (state w)) (state w))
                = Some num"
      "syscall_abi proj (state w) num = Inr abi"
      "syscall_number_mapping proj abi num = Some name"
    and bureau: "bureau_invoke_syscall proj (update_scratch (state w)) num as
                   (simos_syscall_cc proj (state w)) = Inr succ_st"
    and w': "w' = snd (commit proj w (simos_syscall_cc proj (state w)) num name as)"
    by (elim exE conjE) assumption
  have "description (successors w') = Some (''SimProcedure '' @ name @ '' (syscall)'')"
    by (simp add: w' commit_flags [OF bureau])
  with res show ?thesis by blast
qed

theorem committed_description_witness:
  "description (successors
     (snd (process_successors (ex_amd64 (BVV 2) [BVV 4096, BVV 0, BVV 420])
             (ex_world {BYPASS_UNSUPPORTED_SYSCALL}))))
     = Some (''SimProcedure '' @ ''open'' @ '' (syscall)'')"
proof -
  let ?p = "ex_amd64 (BVV 2) [BVV 4096, BVV 0, BVV 420]"
  let ?w = "ex_world {BYPASS_UNSUPPORTED_SYSCALL}"
  from committed_description [OF ex_open_run [of "{BYPASS_UNSUPPORTED_SYSCALL}"]]
  obtain num abi name where
    num: "eval_one (state ?w) (syscall_num (simos_syscall_cc ?p (state ?w)) (state ?w))
            = Some num"
    and abi: "syscall_abi ?p (state ?w) num = Inr abi"
    and name: "syscall_number_mapping ?p abi num = Some name"
    and d: "description (successors (snd (process_successors ?p ?w)))
              = Some (''SimProcedure '' @ name @ '' (syscall)'')"
    by (elim exE conjE) assumption
  from num have "num = 2"
    by (simp add: state_ex_world ex_state_simps ex_amd64_simps)
  moreover from abi have "abi = ''amd64''"
    by (simp add: ex_amd64_simps)
  ultimately have "name = ''open''"
    using name by (simp add: ex_amd64_simps)
  with d show ?thesis by simp
qed

text \<open>
  C9, as stated, claims the description to be \<^verbatim>\<open>syscall\<close>, a space and the name. For the
  amd64 syscall 2 (\<^verbatim>\<open>open\<close>) with concrete arguments the dispatch runs to its end and the
  description is \<^verbatim>\<open>SimProcedure open (syscall)\<close>, which is not \<^verbatim>\<open>syscall open\<close>.
\<close>

theorem description_is_not_syscall_name_counterexample:
  "fst (process_successors (ex_amd64 (BVV 2) [BVV 4096, BVV 0, BVV 420]) (ex_world {})) = DONE
   \<and> syscall_number_mapping (ex_amd64 (BVV 2) [BVV 4096, BVV 0, BVV 420]) ''amd64'' 2
       = Some ''open''
   \<and> description (successors
        (snd (process_successors (ex_amd64 (BVV 2) [BVV 4096, BVV 0, BVV 420])
                (ex_world {})))) = Some ''SimProcedure open (syscall)''
   \<and> description (successors
        (snd (process_successors (ex_amd64 (BVV 2) [BVV 4096, BVV 0, BVV 420])
                (ex_world {})))) \<noteq> Some (''syscall '' @ ''open'')"
  by (simp add: ex_open_DONE commit_flags [OF ex_amd64_bureau] ex_amd64_simps)

end
